theory Spec2Isabelle
  imports Complex_Main
begin

section \<open>The telemetry agent \<^verbatim>\<open>collector.py\<close>\<close>

text \<open>
  A shallow embedding of \<^verbatim>\<open>agent/python_agent/collector.py\<close>.

  Conventions of the embedding:
  \<^item> a Python \<^verbatim>\<open>float\<close> is a \<^typ>\<open>real\<close>: rounding, infinities and NaN are not modelled,
    and the arithmetic of floats does not overflow; a Python \<^verbatim>\<open>int\<close> is an \<^typ>\<open>int\<close>, and
    its conversion to a float raises as in Python when it is too large;
  \<^item> an exception is a value: every function that can raise returns \<open>exn + 'a\<close>, and a
    function that also mutates a global returns the new value of the global beside it,
    also when it raises;
  \<^item> everything the program reads from its host (the outcome of a subprocess, the clock,
    the name service, the HTTP exchange) and the library functions it calls on text
    (\<^verbatim>\<open>json.loads\<close>, \<^verbatim>\<open>float(str)\<close>, \<^verbatim>\<open>int(str)\<close>, \<^verbatim>\<open>str\<close>, \<^verbatim>\<open>strftime\<close>) are fields of
    a record \<open>world\<close>; the theorems hold for every world.
\<close>

subsection \<open>Python values and exceptions\<close>

text \<open>
  What \<^verbatim>\<open>json.loads\<close> returns. A \<^verbatim>\<open>dict\<close> is an association list read with \<open>map_of\<close>.
  The literals \<^verbatim>\<open>NaN\<close>, \<^verbatim>\<open>Infinity\<close> and \<^verbatim>\<open>-Infinity\<close>, which \<^verbatim>\<open>json.loads\<close> reads as
  floats that are not finite, are not values of the model.
\<close>

datatype json =
    JNull
  | JBool bool
  | JInt int
  | JFloat real
  | JStr string
  | JList "json list"
  | JDict "(string \<times> json) list"

datatype exn_class =
    RuntimeError
  | OSError
  | AttributeError
  | TypeError
  | ValueError
  | OverflowError
  | ZeroDivisionError
  | OtherException

text \<open>An exception object: its class and \<^verbatim>\<open>str(exc)\<close>.\<close>

datatype exn = Raise exn_class string

fun exn_class_of :: "exn \<Rightarrow> exn_class" where
  "exn_class_of (Raise k m) = k"

fun exn_str :: "exn \<Rightarrow> string" where
  "exn_str (Raise k m) = m"

text \<open>\<^verbatim>\<open>type(x).__name__\<close>, and a text between single quotes, as the messages have them.\<close>

fun type_name :: "json \<Rightarrow> string" where
  "type_name JNull = ''NoneType''"
| "type_name (JBool b) = ''bool''"
| "type_name (JInt i) = ''int''"
| "type_name (JFloat r) = ''float''"
| "type_name (JStr s) = ''str''"
| "type_name (JList xs) = ''list''"
| "type_name (JDict kvs) = ''dict''"

definition quoted :: "string \<Rightarrow> string" where
  "quoted s = CHR 0x27 # s @ [CHR 0x27]"

text \<open>The \<^verbatim>\<open>AttributeError\<close> of \<^verbatim>\<open>x.get\<close> on a value that is no \<^verbatim>\<open>dict\<close>.\<close>

definition no_attribute_get :: "json \<Rightarrow> exn" where
  "no_attribute_get v =
     Raise AttributeError (quoted (type_name v) @ '' object has no attribute '' @ quoted ''get'')"

text \<open>\<^verbatim>\<open>d.get(key)\<close>: on anything but a \<^verbatim>\<open>dict\<close> the attribute does not exist.\<close>

fun py_get :: "json \<Rightarrow> string \<Rightarrow> exn + json" where
  "py_get (JDict kvs) key = Inr (case map_of kvs key of None \<Rightarrow> JNull | Some v \<Rightarrow> v)"
| "py_get v key = Inl (no_attribute_get v)"

text \<open>\<^verbatim>\<open>d.get(key, default)\<close>.\<close>

fun py_get_default :: "json \<Rightarrow> string \<Rightarrow> json \<Rightarrow> exn + json" where
  "py_get_default (JDict kvs) key d = Inr (case map_of kvs key of None \<Rightarrow> d | Some v \<Rightarrow> v)"
| "py_get_default v key d = Inl (no_attribute_get v)"

text \<open>Truth value of a value, as \<^verbatim>\<open>x or y\<close> tests it.\<close>

fun truthy :: "json \<Rightarrow> bool" where
  "truthy JNull = False"
| "truthy (JBool b) = b"
| "truthy (JInt i) = (i \<noteq> 0)"
| "truthy (JFloat r) = (r \<noteq> 0)"
| "truthy (JStr s) = (s \<noteq> [])"
| "truthy (JList xs) = (xs \<noteq> [])"
| "truthy (JDict kvs) = (kvs \<noteq> [])"

subsection \<open>Text\<close>

text \<open>
  A character of the model is a code point below 256. Those that \<^verbatim>\<open>str.strip()\<close> removes
  (\<^verbatim>\<open>str.isspace\<close>); the white space beyond 255 is not in the model.
\<close>

definition is_space :: "char \<Rightarrow> bool" where
  "is_space c = (c \<in> set [CHR '' '', CHR 0x09, CHR 0x0A, CHR 0x0B, CHR 0x0C, CHR 0x0D,
                           CHR 0x1C, CHR 0x1D, CHR 0x1E, CHR 0x1F, CHR 0x85, CHR 0xA0])"

definition strip :: "string \<Rightarrow> string" where
  "strip s = rev (dropWhile is_space (rev (dropWhile is_space s)))"

text \<open>
  The line boundaries of \<^verbatim>\<open>str.splitlines()\<close> below 256; \<^verbatim>\<open>\r\n\<close> is one boundary. The
  boundaries U+2028 and U+2029 are not in the model.
\<close>

definition is_linebreak :: "char \<Rightarrow> bool" where
  "is_linebreak c = (c \<in> set [CHR 0x0A, CHR 0x0B, CHR 0x0C, CHR 0x0D, CHR 0x1C, CHR 0x1D, CHR 0x1E,
                               CHR 0x85])"

fun splitlines_from :: "string \<Rightarrow> string \<Rightarrow> string list" where
  "splitlines_from cur [] = (if cur = [] then [] else [rev cur])"
| "splitlines_from cur [c] = (if is_linebreak c then [rev cur] else [rev (c # cur)])"
| "splitlines_from cur (c # d # cs) =
     (if c = CHR 0x0D \<and> d = CHR 0x0A then rev cur # splitlines_from [] cs
      else if is_linebreak c then rev cur # splitlines_from [] (d # cs)
      else splitlines_from (c # cur) (d # cs))"

definition splitlines :: "string \<Rightarrow> string list" where
  "splitlines s = splitlines_from [] s"

definition startswith :: "string \<Rightarrow> string \<Rightarrow> bool" where
  "startswith s p = (take (length p) s = p)"

text \<open>
  \<^verbatim>\<open>line.split("=", 1)[1]\<close>: what follows the first \<^verbatim>\<open>=\<close>. The source takes it only of
  a line that starts with a key ending in \<^verbatim>\<open>=\<close>, so the index 1 exists.
\<close>

definition after_equals :: "string \<Rightarrow> string" where
  "after_equals line = drop 1 (dropWhile (\<lambda>c. c \<noteq> CHR ''='') line)"

text \<open>\<^verbatim>\<open>' '.join(command)\<close>.\<close>

fun join_spaces :: "string list \<Rightarrow> string" where
  "join_spaces [] = []"
| "join_spaces [x] = x"
| "join_spaces (x # y # ys) = x @ '' '' @ join_spaces (y # ys)"

text \<open>\<^verbatim>\<open>str\<close> of an \<^verbatim>\<open>int\<close>, as an f-string and \<^verbatim>\<open>str.format\<close> insert it.\<close>

definition digit_char :: "nat \<Rightarrow> char" where
  "digit_char d = ''0123456789'' ! d"

function str_nat :: "nat \<Rightarrow> string" where
  "str_nat n = (if n < 10 then [digit_char n] else str_nat (n div 10) @ [digit_char (n mod 10)])"
  by pat_completeness auto
termination
  by (relation "measure id") auto

definition str_int :: "int \<Rightarrow> string" where
  "str_int i = (if i < 0 then CHR ''-'' # str_nat (nat (- i)) else str_nat (nat i))"

subsection \<open>Conversions\<close>

text \<open>
  The least integer that \<^verbatim>\<open>float\<close> rejects: half way between the largest double and
  \<open>2 ^ 1024\<close>. \<^verbatim>\<open>float(i)\<close> raises \<^verbatim>\<open>OverflowError\<close> from there on, on both sides of 0.
\<close>

definition float_overflow :: int where
  "float_overflow = 2 ^ 1024 - 2 ^ 970"

text \<open>
  \<^verbatim>\<open>float(x)\<close> of a value read from JSON; parsing text is the world's \<open>float_of_str\<close>.
  The message of the \<^verbatim>\<open>ValueError\<close> is cut before the text that it quotes.
\<close>

definition py_float :: "(string \<Rightarrow> real option) \<Rightarrow> json \<Rightarrow> exn + real" where
  "py_float float_of_str v =
     (case v of
        JInt i \<Rightarrow>
          if float_overflow \<le> \<bar>i\<bar>
          then Inl (Raise OverflowError ''int too large to convert to float'')
          else Inr (real_of_int i)
      | JFloat r \<Rightarrow> Inr r
      | JBool b \<Rightarrow> Inr (if b then 1 else 0)
      | JStr s \<Rightarrow> (case float_of_str s of
                    Some r \<Rightarrow> Inr r
                  | None \<Rightarrow> Inl (Raise ValueError ''could not convert string to float''))
      | _ \<Rightarrow> Inl (Raise TypeError
                 (''float() argument must be a string or a real number, not '' @
                  quoted (type_name v))))"

text \<open>
  \<^verbatim>\<open>int(x)\<close>: a float is truncated towards zero. Every float of the model is finite, so the
  \<^verbatim>\<open>OverflowError\<close> of \<^verbatim>\<open>int(float('inf'))\<close> has no place here. The message of the
  \<^verbatim>\<open>ValueError\<close> is cut before the text that it quotes.
\<close>

definition py_int :: "(string \<Rightarrow> int option) \<Rightarrow> json \<Rightarrow> exn + int" where
  "py_int int_of_str v =
     (case v of
        JInt i \<Rightarrow> Inr i
      | JFloat r \<Rightarrow> Inr (if r < 0 then \<lceil>r\<rceil> else \<lfloor>r\<rfloor>)
      | JBool b \<Rightarrow> Inr (if b then 1 else 0)
      | JStr s \<Rightarrow> (case int_of_str s of
                    Some i \<Rightarrow> Inr i
                  | None \<Rightarrow> Inl (Raise ValueError ''invalid literal for int() with base 10''))
      | _ \<Rightarrow> Inl (Raise TypeError
                 (''int() argument must be a string, a bytes-like object or a real number, not '' @
                  quoted (type_name v))))"

text \<open>\<^verbatim>\<open>a / b\<close> on floats.\<close>

definition truediv :: "real \<Rightarrow> real \<Rightarrow> exn + real" where
  "truediv a b = (if b = 0 then Inl (Raise ZeroDivisionError ''float division by zero'') else Inr (a / b))"

text \<open>Whether an \<^verbatim>\<open>except\<close> clause naming the classes \<open>ks\<close> handles \<open>e\<close>.\<close>

definition caught :: "exn_class list \<Rightarrow> exn \<Rightarrow> bool" where
  "caught ks e = (exn_class_of e \<in> set ks)"

subsection \<open>Configuration, state, results\<close>

text \<open>The module constants read from the environment at import.\<close>

record config =
  INGEST_URL :: string
  INGEST_SECRET :: string
  AGENT_ID :: string
  POLL_INTERVAL :: real
  MAX_PROCESSES :: int
  MAX_EVENTS :: int

text \<open>The two module globals \<^verbatim>\<open>_PREVIOUS_CPU_TIMES\<close> and \<^verbatim>\<open>_PREVIOUS_COLLECTED_AT\<close>.\<close>

record state =
  PREVIOUS_CPU_TIMES :: "int \<Rightarrow> real option"
  PREVIOUS_COLLECTED_AT :: "real option"

record memory =
  total_bytes :: "real option"
  used_bytes :: "real option"

record disk =
  device :: string
  total_bytes :: real
  free_bytes :: real

record sample =
  pid :: int
  name :: string
  cpu_percent :: "real option"
  memory_mb :: "real option"

record event =
  timestamp :: json
  event_id :: "string option"
  level :: json
  source :: json
  message :: json

record metrics =
  cpu_percent :: "real option"
  memory :: memory
  disks :: "disk list"

record snapshot =
  agent_id :: string
  hostname :: string
  ip :: "string option"
  collected_at :: string
  metrics :: metrics
  processes :: "sample list"
  events :: "event list"

record completed_process =
  returncode :: int
  stdout :: string
  stderr :: string

record request =
  url :: string
  data :: string
  headers :: "(string \<times> string) list"
  http_method :: string

text \<open>
  What one polling cycle reads from its host. \<open>subprocess_run\<close> is \<^verbatim>\<open>subprocess.run\<close>
  with \<^verbatim>\<open>check=False\<close>: it returns the completed process, or raises when the program
  cannot be started (\<^verbatim>\<open>FileNotFoundError\<close>, a subclass of \<^verbatim>\<open>OSError\<close>).
  \<open>json_loads\<close>, \<open>float_of_str\<close> and \<open>int_of_str\<close> return \<open>None\<close> where the library
  raises \<^verbatim>\<open>JSONDecodeError\<close> or \<^verbatim>\<open>ValueError\<close>. \<open>urlopen\<close> returns the status of the response
  or raises; the default opener of \<^verbatim>\<open>urllib\<close> raises \<^verbatim>\<open>HTTPError\<close> itself for a status of
  400 or more, so that the test of the status in \<^verbatim>\<open>_post_snapshot\<close> is a second guard.
  The three clock readings are those of \<^verbatim>\<open>main\<close> before the cycle, of
  \<^verbatim>\<open>_collect_snapshot\<close>, and of \<^verbatim>\<open>main\<close> after the cycle.
\<close>

record world =
  subprocess_run :: "string list \<Rightarrow> exn + completed_process"
  json_loads :: "string \<Rightarrow> json option"
  float_of_str :: "string \<Rightarrow> real option"
  int_of_str :: "string \<Rightarrow> int option"
  py_str :: "json \<Rightarrow> string"
  os_cpu_count :: "nat option"
  gethostname :: string
  gethostbyname :: "string \<Rightarrow> exn + string"
  time_started :: real
  time_now :: real
  time_finished :: real
  strftime_gmtime :: "real \<Rightarrow> string"
  strftime_localtime :: string
  json_dumps :: "snapshot \<Rightarrow> exn + string"
  urlopen :: "request \<Rightarrow> exn + int"

subsection \<open>Running commands\<close>

definition run_command :: "world \<Rightarrow> string list \<Rightarrow> exn + string" where
  "run_command w command =
     (case subprocess_run w command of
        Inl e \<Rightarrow> Inl e
      | Inr process \<Rightarrow>
          if returncode process \<noteq> 0
          then Inl (Raise RuntimeError
                 (''Command '' @ join_spaces command @ '' failed: '' @ strip (stderr process)))
          else Inr (strip (stdout process)))"

definition run_powershell :: "world \<Rightarrow> string \<Rightarrow> exn + string" where
  "run_powershell w script = run_command w [''powershell'', ''-NoProfile'', ''-Command'', script]"

subsection \<open>CPU load and memory\<close>

text \<open>The loop over the lines of \<^verbatim>\<open>_collect_cpu_percent\<close>, which returns at the first match.\<close>

fun cpu_percent_lines :: "world \<Rightarrow> string list \<Rightarrow> real option" where
  "cpu_percent_lines w [] = None"
| "cpu_percent_lines w (line # lines) =
     (if startswith line ''LoadPercentage=''
      then float_of_str w (strip (after_equals line))
      else cpu_percent_lines w lines)"

definition collect_cpu_percent :: "world \<Rightarrow> exn + real option" where
  "collect_cpu_percent w =
     (case run_command w [''wmic'', ''cpu'', ''get'', ''LoadPercentage'', ''/value''] of
        Inl e \<Rightarrow> if caught [RuntimeError] e then Inr None else Inl e
      | Inr output \<Rightarrow> Inr (cpu_percent_lines w (splitlines output)))"

text \<open>The loop over the lines, on the pair \<open>(total_kb, free_kb)\<close>.\<close>

fun memory_lines :: "world \<Rightarrow> string list \<Rightarrow> real option \<times> real option \<Rightarrow> real option \<times> real option" where
  "memory_lines w [] kb = kb"
| "memory_lines w (line # lines) (total_kb, free_kb) =
     (if startswith line ''TotalVisibleMemorySize=''
      then memory_lines w lines (float_of_str w (strip (after_equals line)), free_kb)
      else if startswith line ''FreePhysicalMemory=''
      then memory_lines w lines (total_kb, float_of_str w (strip (after_equals line)))
      else memory_lines w lines (total_kb, free_kb))"

definition collect_memory :: "world \<Rightarrow> exn + memory" where
  "collect_memory w =
     (case run_command w
             [''wmic'', ''OS'', ''get'', ''FreePhysicalMemory,TotalVisibleMemorySize'', ''/value''] of
        Inl e \<Rightarrow>
          if caught [RuntimeError] e
          then Inr \<lparr>memory.total_bytes = None, used_bytes = None\<rparr>
          else Inl e
      | Inr output \<Rightarrow>
          (case memory_lines w (splitlines output) (None, None) of
             (Some total_kb, Some free_kb) \<Rightarrow>
               (let total_b = total_kb * 1024;
                    free_b = free_kb * 1024;
                    used_b = max (total_b - free_b) 0
                in Inr \<lparr>memory.total_bytes = Some total_b, used_bytes = Some used_b\<rparr>)
           | _ \<Rightarrow> Inr \<lparr>memory.total_bytes = None, used_bytes = None\<rparr>))"

subsection \<open>Disks\<close>

text \<open>
  One round of the loop over the disks: \<open>Inr None\<close> is \<^verbatim>\<open>continue\<close>, \<open>Inr (Some d)\<close> is
  the entry appended.
\<close>

definition disk_entry :: "world \<Rightarrow> json \<Rightarrow> exn + disk option" where
  "disk_entry w disk =
     (case py_get disk ''DeviceID'' of
        Inl e \<Rightarrow> Inl e
      | Inr device_id \<Rightarrow>
     (case py_get disk ''Size'' of
        Inl e \<Rightarrow> Inl e
      | Inr size_v \<Rightarrow>
     (case py_get disk ''FreeSpace'' of
        Inl e \<Rightarrow> Inl e
      | Inr free_v \<Rightarrow>
        if device_id = JNull \<or> size_v = JNull \<or> free_v = JNull then Inr None
        else
          (case py_float (float_of_str w) size_v of
             Inl e \<Rightarrow> if caught [TypeError, ValueError] e then Inr None else Inl e
           | Inr t \<Rightarrow>
              (case py_float (float_of_str w) free_v of
                 Inl e \<Rightarrow> if caught [TypeError, ValueError] e then Inr None else Inl e
               | Inr f \<Rightarrow>
                   Inr (Some \<lparr>device = py_str w device_id, disk.total_bytes = t,
                              free_bytes = f\<rparr>))))))"

text \<open>The loop of \<^verbatim>\<open>_collect_disks\<close>, on the list \<^verbatim>\<open>result\<close>.\<close>

fun disks_loop :: "world \<Rightarrow> json list \<Rightarrow> disk list \<Rightarrow> exn + disk list" where
  "disks_loop w [] result = Inr result"
| "disks_loop w (disk # rest) result =
     (case disk_entry w disk of
        Inl e \<Rightarrow> Inl e
      | Inr None \<Rightarrow> disks_loop w rest result
      | Inr (Some d) \<Rightarrow> disks_loop w rest (result @ [d]))"

text \<open>The script that \<^verbatim>\<open>_collect_disks\<close> hands to \<^verbatim>\<open>powershell\<close>.\<close>

definition disks_script :: string where
  "disks_script =
     ''Get-CimInstance Win32_LogicalDisk | '' @
     ''Where-Object {$_.DriveType -eq 3} | '' @
     ''Select-Object DeviceID,Size,FreeSpace | '' @
     ''ConvertTo-Json -Depth 3''"

definition collect_disks :: "world \<Rightarrow> exn + disk list" where
  "collect_disks w =
     (case run_powershell w disks_script of
        Inl e \<Rightarrow> if caught [RuntimeError] e then Inr [] else Inl e
      | Inr output \<Rightarrow>
          if output = [] then Inr []
          else
            (case json_loads w output of
               None \<Rightarrow> Inr []
             | Some (JDict kvs) \<Rightarrow> disks_loop w [JDict kvs] []
             | Some (JList xs) \<Rightarrow> disks_loop w xs []
             | Some _ \<Rightarrow> Inr []))"

subsection \<open>Processes\<close>

text \<open>
  Lines 196 to 202 of \<^verbatim>\<open>_collect_processes\<close>, which the specification calls
  \<^verbatim>\<open>ProcessDeltaTracker.observe\<close>: the utilisation of one process from its previous
  cumulative CPU time, and the store of the new one. A division that raises leaves the
  store as it was, since the assignment of line 202 is not reached.
\<close>

definition observe ::
  "(int \<Rightarrow> real option) \<Rightarrow> int \<Rightarrow> real \<Rightarrow> real \<Rightarrow> nat \<Rightarrow> (exn + real option) \<times> (int \<Rightarrow> real option)" where
  "observe previous_cpu_times pid_int cpu_seconds interval_seconds cpu_count =
     (case
        (case previous_cpu_times pid_int of
           None \<Rightarrow> Inr None
         | Some previous_cpu \<Rightarrow>
             if interval_seconds > 0
             then
               (let delta = max (cpu_seconds - previous_cpu) 0 in
                case truediv delta interval_seconds of
                  Inl e \<Rightarrow> Inl e
                | Inr q \<Rightarrow>
                    (case truediv (q * 100) (real cpu_count) of
                       Inl e \<Rightarrow> Inl e
                     | Inr v \<Rightarrow> Inr (Some v)))
             else Inr None)
      of
        Inl e \<Rightarrow> (Inl e, previous_cpu_times)
      | Inr percent \<Rightarrow> (Inr percent, previous_cpu_times(pid_int \<mapsto> cpu_seconds)))"

text \<open>\<^verbatim>\<open>float(cpu_time or 0.0)\<close>, with 0.0 when the conversion raises.\<close>

definition cpu_seconds_of :: "world \<Rightarrow> json \<Rightarrow> exn + real" where
  "cpu_seconds_of w cpu_time =
     (case py_float (float_of_str w) (if truthy cpu_time then cpu_time else JFloat 0) of
        Inl e \<Rightarrow> if caught [TypeError, ValueError] e then Inr 0 else Inl e
      | Inr r \<Rightarrow> Inr r)"

text \<open>\<^verbatim>\<open>float(working_set) / (1024 * 1024)\<close> when there is a working set.\<close>

definition memory_mb_of :: "world \<Rightarrow> json \<Rightarrow> exn + real option" where
  "memory_mb_of w working_set =
     (if working_set \<noteq> JNull
      then
        (case py_float (float_of_str w) working_set of
           Inl e \<Rightarrow> if caught [TypeError, ValueError] e then Inr None else Inl e
         | Inr r \<Rightarrow>
            (case truediv r (1024 * 1024) of
               Inl e \<Rightarrow> if caught [TypeError, ValueError] e then Inr None else Inl e
             | Inr m \<Rightarrow> Inr (Some m)))
      else Inr None)"

text \<open>
  One round of the loop over the processes, with the store of cumulative CPU times:
  \<open>Inr None\<close> is \<^verbatim>\<open>continue\<close>, \<open>Inr (Some s)\<close> is the entry appended.
\<close>

definition process_entry ::
  "world \<Rightarrow> real \<Rightarrow> nat \<Rightarrow> json \<Rightarrow> (int \<Rightarrow> real option) \<Rightarrow> (exn + sample option) \<times> (int \<Rightarrow> real option)" where
  "process_entry w interval_seconds cpu_count process previous_cpu_times =
     (case py_get process ''Id'' of
        Inl e \<Rightarrow> (Inl e, previous_cpu_times)
      | Inr pid_v \<Rightarrow>
     (case py_get process ''ProcessName'' of
        Inl e \<Rightarrow> (Inl e, previous_cpu_times)
      | Inr name_v \<Rightarrow>
     (case py_get process ''WorkingSet64'' of
        Inl e \<Rightarrow> (Inl e, previous_cpu_times)
      | Inr working_set \<Rightarrow>
     (case py_get_default process ''CPU'' (JInt 0) of
        Inl e \<Rightarrow> (Inl e, previous_cpu_times)
      | Inr cpu_time \<Rightarrow>
        if pid_v = JNull \<or> name_v = JNull then (Inr None, previous_cpu_times)
        else
          (case py_int (int_of_str w) pid_v of
             Inl e \<Rightarrow>
               if caught [TypeError, ValueError] e then (Inr None, previous_cpu_times)
               else (Inl e, previous_cpu_times)
           | Inr pid_int \<Rightarrow>
              (case cpu_seconds_of w cpu_time of
                 Inl e \<Rightarrow> (Inl e, previous_cpu_times)
               | Inr cpu_seconds \<Rightarrow>
                  (case observe previous_cpu_times pid_int cpu_seconds interval_seconds cpu_count of
                     (Inl e, store) \<Rightarrow> (Inl e, store)
                   | (Inr percent, store) \<Rightarrow>
                      (case memory_mb_of w working_set of
                         Inl e \<Rightarrow> (Inl e, store)
                       | Inr mb \<Rightarrow>
                           (Inr (Some \<lparr>pid = pid_int, name = py_str w name_v,
                                        sample.cpu_percent = percent, memory_mb = mb\<rparr>),
                            store)))))))))"

text \<open>The loop of \<^verbatim>\<open>_collect_processes\<close>, on the store and the list \<^verbatim>\<open>results\<close>.\<close>

fun processes_loop ::
  "world \<Rightarrow> real \<Rightarrow> nat \<Rightarrow> json list \<Rightarrow> (int \<Rightarrow> real option) \<Rightarrow> sample list
     \<Rightarrow> (exn + sample list) \<times> (int \<Rightarrow> real option)" where
  "processes_loop w interval_seconds cpu_count [] store results = (Inr results, store)"
| "processes_loop w interval_seconds cpu_count (process # rest) store results =
     (case process_entry w interval_seconds cpu_count process store of
        (Inl e, store') \<Rightarrow> (Inl e, store')
      | (Inr None, store') \<Rightarrow> processes_loop w interval_seconds cpu_count rest store' results
      | (Inr (Some s), store') \<Rightarrow>
          processes_loop w interval_seconds cpu_count rest store' (results @ [s]))"

text \<open>
  The script of \<^verbatim>\<open>_collect_processes\<close>: the only place where \<^verbatim>\<open>MAX_PROCESSES\<close> is used,
  and the only place where processes are sorted.
\<close>

definition processes_script :: "config \<Rightarrow> string" where
  "processes_script cfg =
     ''Get-Process | '' @
     ''Select-Object Id,ProcessName,CPU,WorkingSet64 | '' @
     ''Sort-Object CPU -Descending | '' @
     ''Select-Object -First '' @ str_int (MAX_PROCESSES cfg) @ '' | '' @
     ''ConvertTo-Json -Depth 3''"

text \<open>\<^verbatim>\<open>os.cpu_count() or 1\<close>.\<close>

definition cpu_count_of :: "world \<Rightarrow> nat" where
  "cpu_count_of w = (case os_cpu_count w of None \<Rightarrow> 1 | Some c \<Rightarrow> if c = 0 then 1 else c)"

definition collect_processes ::
  "config \<Rightarrow> world \<Rightarrow> real \<Rightarrow> (int \<Rightarrow> real option) \<Rightarrow> (exn + sample list) \<times> (int \<Rightarrow> real option)" where
  "collect_processes cfg w interval_seconds store =
     (case run_powershell w (processes_script cfg) of
        Inl e \<Rightarrow> if caught [RuntimeError] e then (Inr [], store) else (Inl e, store)
      | Inr output \<Rightarrow>
          if output = [] then (Inr [], store)
          else
            (case json_loads w output of
               None \<Rightarrow> (Inr [], store)
             | Some (JDict kvs) \<Rightarrow>
                 processes_loop w interval_seconds (cpu_count_of w) [JDict kvs] store []
             | Some (JList xs) \<Rightarrow>
                 processes_loop w interval_seconds (cpu_count_of w) xs store []
             | Some _ \<Rightarrow> (Inr [], store)))"

subsection \<open>Events\<close>

text \<open>The record that one round of the loop of \<^verbatim>\<open>_collect_events\<close> appends.\<close>

definition event_entry :: "world \<Rightarrow> json \<Rightarrow> exn + event" where
  "event_entry w ev =
     (case py_get ev ''TimeCreated'' of
        Inl e \<Rightarrow> Inl e
      | Inr created \<Rightarrow>
     (case py_get ev ''Id'' of
        Inl e \<Rightarrow> Inl e
      | Inr ident \<Rightarrow>
     (case py_get ev ''LevelDisplayName'' of
        Inl e \<Rightarrow> Inl e
      | Inr level_name \<Rightarrow>
     (case py_get ev ''ProviderName'' of
        Inl e \<Rightarrow> Inl e
      | Inr provider \<Rightarrow>
     (case py_get ev ''Message'' of
        Inl e \<Rightarrow> Inl e
      | Inr text_v \<Rightarrow>
          Inr \<lparr>timestamp = created,
               event_id = (if ident \<noteq> JNull then Some (py_str w ident) else None),
               level = level_name,
               source = provider,
               message = text_v\<rparr>)))))"

text \<open>The loop of \<^verbatim>\<open>_collect_events\<close>, on the list \<^verbatim>\<open>result\<close>.\<close>

fun events_loop :: "world \<Rightarrow> json list \<Rightarrow> event list \<Rightarrow> exn + event list" where
  "events_loop w [] result = Inr result"
| "events_loop w (ev # rest) result =
     (case event_entry w ev of
        Inl e \<Rightarrow> Inl e
      | Inr r \<Rightarrow> events_loop w rest (result @ [r]))"

text \<open>The script of \<^verbatim>\<open>_collect_events\<close>, with \<^verbatim>\<open>MAX_EVENTS\<close> inserted by \<^verbatim>\<open>str.format\<close>.\<close>

definition events_script :: "config \<Rightarrow> string" where
  "events_script cfg =
     ''Get-WinEvent -LogName System -MaxEvents '' @ str_int (MAX_EVENTS cfg) @ '' | '' @
     ''Select-Object TimeCreated,Id,LevelDisplayName,ProviderName,Message | '' @
     ''ConvertTo-Json -Depth 4''"

definition collect_events :: "config \<Rightarrow> world \<Rightarrow> exn + event list" where
  "collect_events cfg w =
     (case run_powershell w (events_script cfg) of
        Inl e \<Rightarrow> if caught [RuntimeError] e then Inr [] else Inl e
      | Inr output \<Rightarrow>
          if output = [] then Inr []
          else
            (case json_loads w output of
               None \<Rightarrow> Inr []
             | Some (JDict kvs) \<Rightarrow> events_loop w [JDict kvs] []
             | Some (JList xs) \<Rightarrow> events_loop w xs []
             | Some _ \<Rightarrow> Inr []))"

subsection \<open>The snapshot\<close>

text \<open>
  \<^verbatim>\<open>socket.gethostbyname(socket.gethostname())\<close> under \<^verbatim>\<open>except OSError: pass\<close>.
\<close>

definition resolve_ip :: "world \<Rightarrow> exn + string option" where
  "resolve_ip w =
     (case gethostbyname w (gethostname w) of
        Inl e \<Rightarrow> if caught [OSError] e then Inr None else Inl e
      | Inr address \<Rightarrow> Inr (Some address))"

text \<open>
  \<^verbatim>\<open>_collect_snapshot\<close>. The state returned is that of the two globals when the function
  returns or raises: the timestamp is assigned before any source is read, and the CPU
  times are those \<^verbatim>\<open>_collect_processes\<close> left.
\<close>

definition collect_snapshot :: "config \<Rightarrow> world \<Rightarrow> state \<Rightarrow> (exn + snapshot) \<times> state" where
  "collect_snapshot cfg w st =
     (let now = time_now w;
          interval = (case PREVIOUS_COLLECTED_AT st of
                        Some previous \<Rightarrow> now - previous
                      | None \<Rightarrow> POLL_INTERVAL cfg);
          st1 = st\<lparr>PREVIOUS_COLLECTED_AT := Some now\<rparr>
      in
      (case collect_cpu_percent w of
         Inl e \<Rightarrow> (Inl e, st1)
       | Inr load \<Rightarrow>
      (case collect_memory w of
         Inl e \<Rightarrow> (Inl e, st1)
       | Inr mem \<Rightarrow>
      (case collect_disks w of
         Inl e \<Rightarrow> (Inl e, st1)
       | Inr ds \<Rightarrow>
      (case collect_processes cfg w interval (PREVIOUS_CPU_TIMES st1) of
         (r, store) \<Rightarrow>
           (let st2 = st1\<lparr>PREVIOUS_CPU_TIMES := store\<rparr> in
            (case r of
               Inl e \<Rightarrow> (Inl e, st2)
             | Inr ps \<Rightarrow>
            (case collect_events cfg w of
               Inl e \<Rightarrow> (Inl e, st2)
             | Inr evs \<Rightarrow>
            (case resolve_ip w of
               Inl e \<Rightarrow> (Inl e, st2)
             | Inr ip_address \<Rightarrow>
                 (Inr \<lparr>agent_id = AGENT_ID cfg,
                       hostname = gethostname w,
                       ip = ip_address,
                       collected_at = strftime_gmtime w now,
                       metrics = \<lparr>metrics.cpu_percent = load, memory = mem, disks = ds\<rparr>,
                       processes = ps,
                       events = evs\<rparr>,
                  st2))))))))))"

subsection \<open>Delivery and the polling loop\<close>

text \<open>The \<^verbatim>\<open>urllib.request.Request\<close> that \<^verbatim>\<open>_post_snapshot\<close> builds around the encoded body.\<close>

definition ingest_request :: "config \<Rightarrow> string \<Rightarrow> request" where
  "ingest_request cfg body =
     \<lparr>url = INGEST_URL cfg,
      data = body,
      headers = [(''Content-Type'', ''application/json''),
                 (''User-Agent'', ''windows-agent/1.0''),
                 (''X-Ingest-Secret'', INGEST_SECRET cfg)],
      http_method = ''POST''\<rparr>"

definition post_snapshot :: "config \<Rightarrow> world \<Rightarrow> snapshot \<Rightarrow> exn + unit" where
  "post_snapshot cfg w payload =
     (case json_dumps w payload of
        Inl e \<Rightarrow> Inl e
      | Inr body \<Rightarrow>
         (case urlopen w (ingest_request cfg body) of
            Inl e \<Rightarrow> Inl e
          | Inr status \<Rightarrow>
              if status \<ge> 400
              then Inl (Raise RuntimeError (''Ingest failed with status '' @ str_int status))
              else Inr ()))"

text \<open>What a cycle prints: a line on the standard output or on the standard error.\<close>

datatype log_line = Stdout string | Stderr string

text \<open>
  One round of the \<^verbatim>\<open>while True\<close> of \<^verbatim>\<open>main\<close>: the line printed, the argument of
  \<^verbatim>\<open>time.sleep\<close>, and the globals after the round. \<^verbatim>\<open>except Exception\<close> handles every
  exception of the model. The loop has no exit, so it is modelled round by round; the
  warning that \<^verbatim>\<open>main\<close> prints once on a platform other than Windows is left out.
\<close>

definition main_cycle :: "config \<Rightarrow> world \<Rightarrow> state \<Rightarrow> log_line \<times> real \<times> state" where
  "main_cycle cfg w st =
     (let started = time_started w in
      (case collect_snapshot cfg w st of
         (r, st') \<Rightarrow>
           (let printed =
                  (case r of
                     Inl exc \<Rightarrow> Stderr (''Error collecting or sending metrics: '' @ exn_str exc)
                   | Inr snap \<Rightarrow>
                      (case post_snapshot cfg w snap of
                         Inl exc \<Rightarrow>
                           Stderr (''Error collecting or sending metrics: '' @ exn_str exc)
                       | Inr u \<Rightarrow>
                           Stdout (''['' @ strftime_localtime w @ ''] '' @
                                   ''Sent metrics for '' @ agent_id snap)));
                elapsed = time_finished w - started;
                sleep_time = max (POLL_INTERVAL cfg - elapsed) 5
            in (printed, sleep_time, st'))))"

subsection \<open>Notions used in the statements\<close>

text \<open>\<^verbatim>\<open>isinstance(x, dict)\<close>.\<close>

fun is_dict :: "json \<Rightarrow> bool" where
  "is_dict (JDict kvs) = True"
| "is_dict v = False"

text \<open>
  The process identifier under which the loop of \<^verbatim>\<open>_collect_processes\<close> lists an entry
  of the command's output, by the tests of lines 178 to 189: none when the entry has no
  \<^verbatim>\<open>Id\<close> or no \<^verbatim>\<open>ProcessName\<close>, or when \<^verbatim>\<open>int\<close> rejects the \<^verbatim>\<open>Id\<close>.
\<close>

definition listed_pid :: "world \<Rightarrow> json \<Rightarrow> int option" where
  "listed_pid w process =
     (case (py_get process ''Id'', py_get process ''ProcessName'') of
        (Inr pid_v, Inr name_v) \<Rightarrow>
          if pid_v = JNull \<or> name_v = JNull then None
          else (case py_int (int_of_str w) pid_v of Inr k \<Rightarrow> Some k | Inl e \<Rightarrow> None)
      | _ \<Rightarrow> None)"




text \<open>
  An integer that \<^verbatim>\<open>float\<close> accepts or any other value, and an object all of whose values
  are such: what the commands print for the properties that the loops convert.
\<close>

definition float_safe :: "json \<Rightarrow> bool" where
  "float_safe v = (case v of JInt i \<Rightarrow> \<bar>i\<bar> < float_overflow | _ \<Rightarrow> True)"

definition plain_object :: "json \<Rightarrow> bool" where
  "plain_object x = (case x of JDict kvs \<Rightarrow> list_all (\<lambda>kv. float_safe (snd kv)) kvs | _ \<Rightarrow> False)"

text \<open>
  A sequence of observations \<open>(pid, cumulative seconds, elapsed seconds, cores)\<close> made one
  after the other on the same store, as the rounds of the loop and the successive cycles
  make them: the results in order, and the store at the end.
\<close>

fun observe_calls ::
  "(int \<Rightarrow> real option) \<Rightarrow> (int \<times> real \<times> real \<times> nat) list
     \<Rightarrow> (exn + real option) list \<times> (int \<Rightarrow> real option)" where
  "observe_calls store [] = ([], store)"
| "observe_calls store ((k, c, e, n) # calls) =
     (case observe store k c e n of
        (r, store') \<Rightarrow>
          (case observe_calls store' calls of
             (rs, final) \<Rightarrow> (r # rs, final)))"

subsection \<open>A host for examples\<close>

definition demo_config :: config where
  "demo_config =
     \<lparr>INGEST_URL = ''http://localhost:3000/api/ingest'', INGEST_SECRET = ''dev-secret'',
      AGENT_ID = ''host-a'', POLL_INTERVAL = 30, MAX_PROCESSES = 2, MAX_EVENTS = 20\<rparr>"

text \<open>Three processes, not in the order of their CPU times.\<close>

definition demo_processes :: json where
  "demo_processes =
     JList [JDict [(''Id'', JInt 1), (''ProcessName'', JStr ''a''), (''CPU'', JInt 5)],
            JDict [(''Id'', JInt 2), (''ProcessName'', JStr ''b''), (''CPU'', JInt 9)],
            JDict [(''Id'', JInt 3), (''ProcessName'', JStr ''c''), (''CPU'', JInt 1)]]"

text \<open>
  The two \<^verbatim>\<open>wmic\<close> queries answer, \<^verbatim>\<open>Get-Process\<close> prints a text that \<open>json_loads\<close>
  below reads as \<open>demo_processes\<close>, every other script exits with status 1.
\<close>

definition demo_run :: "string list \<Rightarrow> exn + completed_process" where
  "demo_run command =
     (if take 2 command = [''wmic'', ''cpu'']
      then Inr \<lparr>returncode = 0, stdout = ''LoadPercentage=7'', stderr = []\<rparr>
      else if take 2 command = [''wmic'', ''OS'']
      then Inr \<lparr>returncode = 0,
                stdout = ''FreePhysicalMemory=1024'' @ [CHR 0x0D, CHR 0x0A] @
                         ''TotalVisibleMemorySize=4096'',
                stderr = []\<rparr>
      else if take 11 (last command) = ''Get-Process''
      then Inr \<lparr>returncode = 0, stdout = ''processes'', stderr = []\<rparr>
      else Inr \<lparr>returncode = 1, stdout = [], stderr = ''denied''\<rparr>)"

definition demo_world :: world where
  "demo_world =
     \<lparr>subprocess_run = demo_run,
      json_loads = (\<lambda>s. if s = ''processes'' then Some demo_processes else None),
      float_of_str = map_of [(''7'', 7), (''1024'', 1024), (''4096'', 4096)],
      int_of_str = map_of [],
      py_str = (\<lambda>v. case v of JStr s \<Rightarrow> s | _ \<Rightarrow> ''?''),
      os_cpu_count = Some 4,
      gethostname = ''host-a'',
      gethostbyname = (\<lambda>h. Inr ''10.0.0.5''),
      time_started = 100,
      time_now = 101,
      time_finished = 103,
      strftime_gmtime = (\<lambda>t. ''1970-01-01T00:01:41Z''),
      strftime_localtime = ''1970-01-01 00:01:43'',
      json_dumps = (\<lambda>p. Inr ''{}''),
      urlopen = (\<lambda>r. Inr 200)\<rparr>"

text \<open>The same host without the programs \<^verbatim>\<open>wmic\<close> and \<^verbatim>\<open>powershell\<close>.\<close>

definition bare_world :: world where
  "bare_world =
     demo_world\<lparr>subprocess_run :=
       (\<lambda>command. Inl (Raise OSError ''[Errno 2] No such file or directory''))\<rparr>"

text \<open>The same host when \<^verbatim>\<open>Get-Process\<close> prints the two busiest processes, busiest first.\<close>

definition sorted_world :: world where
  "sorted_world =
     demo_world\<lparr>json_loads :=
       (\<lambda>s. if s = ''processes''
            then Some (JList [JDict [(''Id'', JInt 2), (''ProcessName'', JStr ''b''), (''CPU'', JInt 9)],
                              JDict [(''Id'', JInt 1), (''ProcessName'', JStr ''a''), (''CPU'', JInt 5)]])
            else None)\<rparr>"

text \<open>
  The same host when \<^verbatim>\<open>Get-Process\<close> prints two processes with equal CPU times, in an
  order that the script allows: it sorts by the CPU time only.
\<close>

definition tied_world :: world where
  "tied_world =
     demo_world\<lparr>json_loads :=
       (\<lambda>s. if s = ''processes''
            then Some (JList [JDict [(''Id'', JInt 7), (''ProcessName'', JStr ''a''), (''CPU'', JInt 5)],
                              JDict [(''Id'', JInt 3), (''ProcessName'', JStr ''b''), (''CPU'', JInt 5)]])
            else None)\<rparr>"

text \<open>The same host when the ingestion endpoint answers with status 500.\<close>

definition failing_endpoint_world :: world where
  "failing_endpoint_world = demo_world\<lparr>urlopen := (\<lambda>r. Inr 500)\<rparr>"

text \<open>The same host when the endpoint refuses the connection (\<^verbatim>\<open>URLError\<close> is an \<^verbatim>\<open>OSError\<close>).\<close>

definition unreachable_world :: world where
  "unreachable_world =
     demo_world\<lparr>urlopen :=
       (\<lambda>r. Inl (Raise OSError ''<urlopen error [Errno 111] Connection refused>''))\<rparr>"

text \<open>The same host when \<^verbatim>\<open>json.dumps\<close> rejects the payload.\<close>

definition unserialisable_world :: world where
  "unserialisable_world =
     demo_world\<lparr>json_dumps :=
       (\<lambda>p. Inl (Raise TypeError ''Object of type bytes is not JSON serializable''))\<rparr>"

text \<open>The same host when it reports no logical core.\<close>

definition coreless_world :: world where
  "coreless_world = demo_world\<lparr>os_cpu_count := Some 0\<rparr>"

text \<open>The same host when it reports more free than total memory.\<close>

definition overfree_world :: world where
  "overfree_world =
     demo_world\<lparr>subprocess_run :=
       (\<lambda>command. Inr \<lparr>returncode = 0,
                        stdout = ''FreePhysicalMemory=4096'' @ [CHR 0x0A] @
                                 ''TotalVisibleMemorySize=1024'',
                        stderr = []\<rparr>)\<rparr>"

text \<open>The globals ten seconds after a cycle that saw process 1 at one CPU second.\<close>

definition later_state :: state where
  "later_state = \<lparr>PREVIOUS_CPU_TIMES = Map.empty(1 \<mapsto> 1), PREVIOUS_COLLECTED_AT = Some 91\<rparr>"

text \<open>The globals when the module is loaded.\<close>

definition initial_state :: state where
  "initial_state = \<lparr>PREVIOUS_CPU_TIMES = Map.empty, PREVIOUS_COLLECTED_AT = None\<rparr>"

section \<open>Properties\<close>

subsection \<open>Unfolding the model on the example hosts\<close>

lemmas demo_defs = demo_config_def demo_processes_def demo_run_def demo_world_def
  bare_world_def initial_state_def sorted_world_def tied_world_def failing_endpoint_world_def
  unreachable_world_def unserialisable_world_def
  coreless_world_def overfree_world_def later_state_def

lemmas run_defs = collect_cpu_percent_def collect_memory_def collect_disks_def
  collect_processes_def collect_events_def run_command_def run_powershell_def
  processes_script_def events_script_def disks_script_def caught_def strip_def splitlines_def
  startswith_def after_equals_def is_space_def is_linebreak_def resolve_ip_def
  process_entry_def observe_def cpu_seconds_of_def memory_mb_of_def py_int_def py_float_def
  truediv_def cpu_count_of_def str_int_def digit_char_def float_overflow_def Let_def

lemmas snapshot_defs = collect_snapshot_def main_cycle_def post_snapshot_def ingest_request_def

subsection \<open>The utilisation of one process\<close>

lemma observe_first:
  "previous k = None \<Longrightarrow> observe previous k c e n = (Inr None, previous(k \<mapsto> c))"
  by (simp add: observe_def)

lemma observe_nonpositive:
  "e \<le> 0 \<Longrightarrow> observe previous k c e n = (Inr None, previous(k \<mapsto> c))"
  by (simp add: observe_def split: option.splits)

lemma observe_later:
  "previous k = Some p \<Longrightarrow> 0 < e \<Longrightarrow> 0 < n \<Longrightarrow>
   observe previous k c e n =
     (Inr (Some (max (c - p) 0 / e * 100 / real n)), previous(k \<mapsto> c))"
  by (simp add: observe_def truediv_def Let_def)

text \<open>
  Claim C2. For a process whose cumulative CPU time \<open>p\<close> is stored, an observation of
  the cumulative time \<open>c\<close> over \<open>e > 0\<close> seconds on \<open>n\<close> cores (a positive number, as the
  formula divides by it) yields \<open>max (c - p) 0 / e * 100 / n\<close>. Whatever was stored before,
  observing 10 and then 15 over 10 seconds on one core yields 50 at the second
  observation, and observing 10 and then 8 yields 0.
\<close>

theorem observe_utilisation:
  "(previous k = Some p \<and> 0 < e \<and> 0 < n \<longrightarrow>
      fst (observe previous k c e n) = Inr (Some (max (c - p) 0 / e * 100 / real n)))
   \<and> fst (observe (snd (observe previous k 10 10 1)) k 15 10 1) = Inr (Some 50)
   \<and> fst (observe (snd (observe previous k 10 10 1)) k 8 10 1) = Inr (Some 0)"
proof (intro conjI impI)
  assume "previous k = Some p \<and> 0 < e \<and> 0 < n"
  then show "fst (observe previous k c e n) = Inr (Some (max (c - p) 0 / e * 100 / real n))"
    by (simp add: observe_later)
next
  show "fst (observe (snd (observe previous k 10 10 1)) k 15 10 1) = Inr (Some 50)"
    by (simp add: observe_def truediv_def Let_def split: option.splits)
next
  show "fst (observe (snd (observe previous k 10 10 1)) k 8 10 1) = Inr (Some 0)"
    by (simp add: observe_def truediv_def Let_def split: option.splits)
qed

theorem observe_utilisation_witness:
  "(Map.empty(7 \<mapsto> 10)) (7::int) = Some (10::real) \<and> (0::real) < 10 \<and> 0 < (1::nat)
   \<and> fst (observe (Map.empty(7 \<mapsto> 10)) 7 15 10 1) = Inr (Some 50)"
  using observe_utilisation [of "Map.empty(7 \<mapsto> 10)" 7 10 10 1 15] by simp

subsection \<open>The polling loop\<close>

text \<open>
  Claim C8. In every round of the loop the argument of \<^verbatim>\<open>time.sleep\<close> is the maximum of
  the nominal interval less the duration of the round and the floor, which the source
  fixes at 5 seconds; so it is never below the floor, however long the round took.
\<close>

theorem sleep_time_floor:
  "fst (snd (main_cycle cfg w st)) =
     max (POLL_INTERVAL cfg - (time_finished w - time_started w)) 5
   \<and> 5 \<le> fst (snd (main_cycle cfg w st))"
  by (simp add: main_cycle_def Let_def split: prod.splits)

subsection \<open>The loop over the processes\<close>

lemma py_float_raises:
  "py_float f v = Inl e \<Longrightarrow> caught [TypeError, ValueError] e \<or> exn_class_of e = OverflowError"
  by (cases v) (auto simp: py_float_def caught_def split: option.splits if_splits)

lemma py_float_safe:
  "float_safe v \<Longrightarrow> py_float f v = Inl e \<Longrightarrow> caught [TypeError, ValueError] e"
  by (cases v) (auto simp: py_float_def float_safe_def caught_def split: option.splits if_splits)

lemma py_int_caught: "py_int f v = Inl e \<Longrightarrow> caught [TypeError, ValueError] e"
  by (cases v) (auto simp: py_int_def caught_def split: option.splits)

lemma cpu_seconds_of_raises: "cpu_seconds_of w v = Inl e \<Longrightarrow> exn_class_of e = OverflowError"
  by (auto simp: cpu_seconds_of_def split: sum.splits if_splits dest: py_float_raises)

lemma memory_mb_of_raises: "memory_mb_of w v = Inl e \<Longrightarrow> exn_class_of e = OverflowError"
  by (auto simp: memory_mb_of_def truediv_def split: sum.splits if_splits dest: py_float_raises)

lemma cpu_seconds_of_safe:
  assumes "float_safe v"
  shows "\<exists>r. cpu_seconds_of w v = Inr r"
proof -
  from assms have safe: "float_safe (if truthy v then v else JFloat 0)"
    by (simp add: float_safe_def)
  show ?thesis
  proof (cases "py_float (float_of_str w) (if truthy v then v else JFloat 0)")
    case (Inl e)
    with py_float_safe [OF safe Inl] show ?thesis by (simp add: cpu_seconds_of_def)
  next
    case (Inr r)
    then show ?thesis by (simp add: cpu_seconds_of_def)
  qed
qed

lemma memory_mb_of_safe:
  assumes "float_safe v"
  shows "\<exists>m. memory_mb_of w v = Inr m"
proof (cases "py_float (float_of_str w) v")
  case (Inl e)
  with py_float_safe [OF assms Inl] show ?thesis by (simp add: memory_mb_of_def)
next
  case (Inr r)
  then show ?thesis by (simp add: memory_mb_of_def truediv_def)
qed

lemma observe_result:
  "0 < n \<Longrightarrow>
   fst (observe previous k c e n) =
     (case previous k of
        None \<Rightarrow> Inr None
      | Some p \<Rightarrow> if 0 < e then Inr (Some (max (c - p) 0 / e * 100 / real n)) else Inr None)"
  by (auto simp: observe_def truediv_def Let_def split: option.splits if_splits)


lemma observe_pair:
  "0 < n \<Longrightarrow> \<exists>r. observe s k c e n = (Inr r, s(k \<mapsto> c))"
  by (auto simp: observe_def truediv_def Let_def split: option.splits if_splits)

lemma py_get_dict: "is_dict p \<Longrightarrow> \<exists>v. py_get p key = Inr v"
  by (cases p) auto

lemma py_get_default_dict: "is_dict p \<Longrightarrow> \<exists>v. py_get_default p key d = Inr v"
  by (cases p) auto

lemma py_get_not_dict: "\<not> is_dict p \<Longrightarrow> py_get p key = Inl (no_attribute_get p)"
  by (cases p) auto

lemma py_get_plain: "plain_object p \<Longrightarrow> \<exists>v. py_get p key = Inr v \<and> float_safe v"
proof (cases p)
  case (JDict kvs)
  assume "plain_object p"
  with JDict have all: "\<forall>kv\<in>set kvs. float_safe (snd kv)"
    by (simp add: plain_object_def list_all_iff)
  show ?thesis
  proof (cases "map_of kvs key")
    case None
    with JDict show ?thesis by (simp add: float_safe_def)
  next
    case (Some v)
    then have "(key, v) \<in> set kvs" by (rule map_of_SomeD)
    with all have "float_safe v" by fastforce
    with JDict Some show ?thesis by simp
  qed
qed (simp_all add: plain_object_def)

lemma py_get_default_plain:
  "plain_object p \<Longrightarrow> float_safe d \<Longrightarrow> \<exists>v. py_get_default p key d = Inr v \<and> float_safe v"
proof (cases p)
  case (JDict kvs)
  assume "plain_object p" and d: "float_safe d"
  with JDict have all: "\<forall>kv\<in>set kvs. float_safe (snd kv)"
    by (simp add: plain_object_def list_all_iff)
  show ?thesis
  proof (cases "map_of kvs key")
    case None
    with JDict d show ?thesis by simp
  next
    case (Some v)
    then have "(key, v) \<in> set kvs" by (rule map_of_SomeD)
    with all have "float_safe v" by fastforce
    with JDict Some show ?thesis by simp
  qed
qed (simp_all add: plain_object_def)

lemma plain_object_dict: "plain_object p \<Longrightarrow> is_dict p"
  by (cases p) (simp_all add: plain_object_def)

lemma process_entry_not_dict:
  "\<not> is_dict p \<Longrightarrow> process_entry w iv n p s = (Inl (no_attribute_get p), s)"
  by (simp add: process_entry_def py_get_not_dict)

text \<open>
  What a round of the loop returns or raises, apart from the utilisation, depends on the
  entry alone.
\<close>

lemma process_entry_cases:
  assumes "0 < n"
  obtains
    (raises) x where "\<And>iv s. fst (process_entry w iv n p s) = Inl x"
      and "exn_class_of x = AttributeError \<or> exn_class_of x = OverflowError"
  | (skips) "\<And>iv s. fst (process_entry w iv n p s) = Inr None"
  | (lists) "\<And>iv s. \<exists>smp. fst (process_entry w iv n p s) = Inr (Some smp)"
proof (cases "is_dict p")
  case False
  then show ?thesis
    using raises [of "no_attribute_get p"]
    by (simp add: process_entry_not_dict no_attribute_get_def)
next
  case True
  obtain a where a: "py_get p ''Id'' = Inr a" using py_get_dict [OF True] by blast
  obtain b where b: "py_get p ''ProcessName'' = Inr b" using py_get_dict [OF True] by blast
  obtain c where c: "py_get p ''WorkingSet64'' = Inr c" using py_get_dict [OF True] by blast
  obtain d where d: "py_get_default p ''CPU'' (JInt 0) = Inr d"
    using py_get_default_dict [OF True] by blast
  show ?thesis
  proof (cases "a = JNull \<or> b = JNull")
    case True
    then show ?thesis using skips by (simp add: process_entry_def a b c d)
  next
    case present: False
    show ?thesis
    proof (cases "py_int (int_of_str w) a")
      case (Inl e)
      with present show ?thesis
        using skips py_int_caught [OF Inl] by (simp add: process_entry_def a b c d)
    next
      case (Inr k)
      show ?thesis
      proof (cases "cpu_seconds_of w d")
        case (Inl e)
        with present Inr show ?thesis
          using raises [of e] cpu_seconds_of_raises [OF Inl]
          by (simp add: process_entry_def a b c d)
      next
        case cs: (Inr cs)
        have obs: "\<exists>r. observe s k cs iv n = (Inr r, s(k \<mapsto> cs))" for iv s
          using observe_pair [OF assms] by blast
        show ?thesis
        proof (cases "memory_mb_of w c")
          case (Inl e)
          have "fst (process_entry w iv n p s) = Inl e" for iv s
            using obs [of s iv] present Inr cs Inl
            by (auto simp: process_entry_def a b c d)
          then show ?thesis
            using raises [of e] memory_mb_of_raises [OF Inl] by blast
        next
          case mb: (Inr mb)
          have "\<exists>smp. fst (process_entry w iv n p s) = Inr (Some smp)" for iv s
            using obs [of s iv] present Inr cs mb
            by (auto simp: process_entry_def a b c d)
          then show ?thesis
            using lists by blast
        qed
      qed
    qed
  qed
qed

lemma process_entry_plain:
  assumes "plain_object p" "0 < n"
  shows "\<exists>r. fst (process_entry w iv n p s) = Inr r"
proof -
  obtain a where a: "py_get p ''Id'' = Inr a" using py_get_plain [OF assms(1)] by blast
  obtain b where b: "py_get p ''ProcessName'' = Inr b" using py_get_plain [OF assms(1)] by blast
  obtain c where c: "py_get p ''WorkingSet64'' = Inr c" "float_safe c"
    using py_get_plain [OF assms(1)] by blast
  have "float_safe (JInt 0)" by (simp add: float_safe_def float_overflow_def)
  then obtain d where d: "py_get_default p ''CPU'' (JInt 0) = Inr d" "float_safe d"
    using py_get_default_plain [OF assms(1)] by blast
  obtain cs where cs: "cpu_seconds_of w d = Inr cs" using cpu_seconds_of_safe [OF d(2)] by blast
  obtain mb where mb: "memory_mb_of w c = Inr mb" using memory_mb_of_safe [OF c(2)] by blast
  show ?thesis
  proof (cases "py_int (int_of_str w) a")
    case (Inl e)
    then show ?thesis
      using py_int_caught [OF Inl] by (simp add: process_entry_def a b c d)
  next
    case (Inr k)
    obtain r where "observe s k cs iv n = (Inr r, s(k \<mapsto> cs))"
      using observe_pair [OF assms(2)] by blast
    then show ?thesis
      by (simp add: process_entry_def a b c d Inr cs mb)
  qed
qed

lemma process_entry_sample:
  assumes "fst (process_entry w iv n p s) = Inr (Some smp)"
  shows "listed_pid w p = Some (pid smp) \<and> (iv \<le> 0 \<longrightarrow> sample.cpu_percent smp = None)"
proof (cases "is_dict p")
  case False
  then show ?thesis using assms by (simp add: process_entry_not_dict)
next
  case True
  obtain a where a: "py_get p ''Id'' = Inr a" using py_get_dict [OF True] by blast
  obtain b where b: "py_get p ''ProcessName'' = Inr b" using py_get_dict [OF True] by blast
  obtain c where c: "py_get p ''WorkingSet64'' = Inr c" using py_get_dict [OF True] by blast
  obtain d where d: "py_get_default p ''CPU'' (JInt 0) = Inr d"
    using py_get_default_dict [OF True] by blast
  from assms show ?thesis
    by (auto simp: process_entry_def listed_pid_def a b c d observe_nonpositive
             split: sum.splits if_splits prod.splits)
qed


lemma processes_loop_Cons:
  "processes_loop w iv n (p # ps) s acc =
     (case fst (process_entry w iv n p s) of
        Inl e \<Rightarrow> (Inl e, snd (process_entry w iv n p s))
      | Inr None \<Rightarrow> processes_loop w iv n ps (snd (process_entry w iv n p s)) acc
      | Inr (Some smp) \<Rightarrow> processes_loop w iv n ps (snd (process_entry w iv n p s)) (acc @ [smp]))"
  by (simp split: prod.splits sum.splits option.splits)

lemma processes_loop_raises:
  "fst (processes_loop w iv n ps s acc) = Inl x \<Longrightarrow> 0 < n \<Longrightarrow>
   fst (processes_loop w iv' n ps s' acc') = Inl x
   \<and> (exn_class_of x = AttributeError \<or> exn_class_of x = OverflowError)"
proof (induction ps arbitrary: s acc s' acc')
  case Nil
  then show ?case by simp
next
  case (Cons p ps)
  from Cons.prems(2) show ?case
  proof (cases rule: process_entry_cases [of n w p])
    case (raises y)
    with Cons.prems(1) show ?thesis
      by (simp add: processes_loop_Cons del: processes_loop.simps)
  next
    case skips
    with Cons.prems(1)
    have "fst (processes_loop w iv n ps (snd (process_entry w iv n p s)) acc) = Inl x"
      by (simp add: processes_loop_Cons del: processes_loop.simps)
    from Cons.IH [OF this Cons.prems(2)] skips show ?thesis
      by (simp add: processes_loop_Cons del: processes_loop.simps)
  next
    case lists
    obtain smp where smp: "fst (process_entry w iv n p s) = Inr (Some smp)"
      using lists by blast
    obtain smp' where smp': "fst (process_entry w iv' n p s') = Inr (Some smp')"
      using lists by blast
    from Cons.prems(1) smp
    have "fst (processes_loop w iv n ps (snd (process_entry w iv n p s)) (acc @ [smp])) = Inl x"
      by (simp add: processes_loop_Cons del: processes_loop.simps)
    from Cons.IH [OF this Cons.prems(2)] smp' show ?thesis
      by (simp add: processes_loop_Cons del: processes_loop.simps)
  qed
qed

lemma processes_loop_returns:
  "\<forall>p\<in>set ps. plain_object p \<Longrightarrow> 0 < n \<Longrightarrow> \<exists>rs. fst (processes_loop w iv n ps s acc) = Inr rs"
proof (induction ps arbitrary: s acc)
  case Nil
  then show ?case by simp
next
  case (Cons p ps)
  then have d: "plain_object p" and rest: "\<forall>p\<in>set ps. plain_object p" by auto
  obtain r where r: "fst (process_entry w iv n p s) = Inr r"
    using process_entry_plain [OF d Cons.prems(2)] by blast
  show ?case
    using Cons.IH [OF rest Cons.prems(2)]
    by (simp add: processes_loop_Cons r del: processes_loop.simps split: option.splits)
qed

lemma processes_loop_absent:
  "fst (processes_loop w iv n ps s acc) = Inr rs \<Longrightarrow> iv \<le> 0 \<Longrightarrow>
   \<forall>smp\<in>set acc. sample.cpu_percent smp = None \<Longrightarrow>
   \<forall>smp\<in>set rs. sample.cpu_percent smp = None"
proof (induction ps arbitrary: s acc)
  case Nil
  then show ?case by simp
next
  case (Cons p ps)
  show ?case
  proof (cases "fst (process_entry w iv n p s)")
    case (Inl e)
    with Cons.prems show ?thesis
      by (simp add: processes_loop_Cons del: processes_loop.simps)
  next
    case (Inr r)
    show ?thesis
    proof (cases r)
      case None
      from Cons.prems Inr None
      have "fst (processes_loop w iv n ps (snd (process_entry w iv n p s)) acc) = Inr rs"
        by (simp add: processes_loop_Cons del: processes_loop.simps)
      then show ?thesis
        using Cons.IH Cons.prems(2,3) by blast
    next
      case (Some smp)
      with Inr Cons.prems(2) have "sample.cpu_percent smp = None"
        using process_entry_sample by blast
      with Cons.prems(3) have acc: "\<forall>x\<in>set (acc @ [smp]). sample.cpu_percent x = None" by auto
      from Cons.prems Inr Some
      have "fst (processes_loop w iv n ps (snd (process_entry w iv n p s)) (acc @ [smp])) = Inr rs"
        by (simp add: processes_loop_Cons del: processes_loop.simps)
      then show ?thesis
        using Cons.IH [OF _ Cons.prems(2) acc] by blast
    qed
  qed
qed

lemma cpu_count_of_pos: "0 < cpu_count_of w"
  by (simp add: cpu_count_of_def split: option.splits)


lemma collect_processes_cases:
  obtains
    (loop) ps where "\<And>iv s. collect_processes cfg w iv s = processes_loop w iv (cpu_count_of w) ps s []"
  | (empty) "\<And>iv s. collect_processes cfg w iv s = (Inr [], s)"
  | (raised) e where "run_powershell w (processes_script cfg) = Inl e"
      and "\<And>iv s. collect_processes cfg w iv s = (Inl e, s)"
proof (cases "run_powershell w (processes_script cfg)")
  case (Inl e)
  then show ?thesis
    using empty raised by (cases "caught [RuntimeError] e") (simp_all add: collect_processes_def)
next
  case (Inr out)
  show ?thesis
  proof (cases "out = []")
    case True
    with Inr show ?thesis using empty by (simp add: collect_processes_def)
  next
    case False
    show ?thesis
    proof (cases "json_loads w out")
      case None
      with Inr False show ?thesis using empty by (simp add: collect_processes_def)
    next
      case (Some v)
      with Inr False show ?thesis
        using empty loop [of "[v]"] loop [of "case v of JList xs \<Rightarrow> xs"]
        by (cases v) (simp_all add: collect_processes_def del: processes_loop.simps)
    qed
  qed
qed


lemma collect_processes_error_independent:
  assumes "fst (collect_processes cfg w iv s) = Inl x"
  shows "fst (collect_processes cfg w iv' s') = Inl x"
proof (cases rule: collect_processes_cases [of cfg w])
  case (loop ps)
  with assms have "fst (processes_loop w iv (cpu_count_of w) ps s []) = Inl x" by simp
  from processes_loop_raises [OF this cpu_count_of_pos] show ?thesis
    by (simp add: loop)
next
  case empty
  with assms show ?thesis by simp
next
  case (raised e)
  with assms show ?thesis by simp
qed

lemma collect_processes_absent:
  assumes "fst (collect_processes cfg w iv s) = Inr rs" "iv \<le> 0"
  shows "\<forall>smp\<in>set rs. sample.cpu_percent smp = None"
proof (cases rule: collect_processes_cases [of cfg w])
  case (loop ps)
  with assms show ?thesis
    using processes_loop_absent [of w iv "cpu_count_of w" ps s "[]" rs] by simp
next
  case empty
  with assms show ?thesis by auto
next
  case (raised e)
  with assms show ?thesis by simp
qed

subsection \<open>Sequences of observations\<close>

lemma observe_dom: "dom (snd (observe previous k c e n)) = insert k (dom previous)"
  by (auto simp: observe_def truediv_def Let_def split: option.splits if_splits)

lemma observe_stored: "0 < n \<Longrightarrow> snd (observe previous k c e n) = previous(k \<mapsto> c)"
  by (auto simp: observe_def truediv_def Let_def split: option.splits if_splits)

lemma utilisation_nonneg: "0 < e \<Longrightarrow> 0 \<le> max (c - p) 0 / e * 100 / real n"
  by simp

lemma observe_calls_Cons:
  "observe_calls s ((k, c, e, n) # calls) =
     (fst (observe s k c e n) # fst (observe_calls (snd (observe s k c e n)) calls),
      snd (observe_calls (snd (observe s k c e n)) calls))"
  by (simp split: prod.splits)

lemma observe_calls_general:
  "i < length calls \<Longrightarrow> calls ! i = (k, c, e, n) \<Longrightarrow> 0 < n \<Longrightarrow>
   (k \<notin> dom s \<union> fst ` set (take i calls) \<longrightarrow> fst (observe_calls s calls) ! i = Inr None)
   \<and> (k \<in> dom s \<union> fst ` set (take i calls) \<and> e \<le> 0 \<longrightarrow> fst (observe_calls s calls) ! i = Inr None)
   \<and> (k \<in> dom s \<union> fst ` set (take i calls) \<and> 0 < e \<longrightarrow>
        (\<exists>v. fst (observe_calls s calls) ! i = Inr (Some v) \<and> 0 \<le> v))
   \<and> snd (observe_calls s (take (Suc i) calls)) k = Some c"
proof (induction calls arbitrary: s i)
  case Nil
  then show ?case by simp
next
  case (Cons call calls)
  obtain k0 c0 e0 n0 where call: "call = (k0, c0, e0, n0)"
    by (cases call) auto
  show ?case
  proof (cases i)
    case 0
    with Cons.prems call have eq: "k0 = k" "c0 = c" "e0 = e" "n0 = n" by auto
    have r: "fst (observe_calls s (call # calls)) ! 0 = fst (observe s k c e n)"
      by (simp add: call eq observe_calls_Cons del: observe_calls.simps)
    have f: "snd (observe_calls s (take (Suc 0) (call # calls))) = snd (observe s k c e n)"
      by (simp add: call eq observe_calls_Cons del: observe_calls.simps(2))
    have t: "fst ` set (take 0 (call # calls)) = {}"
      by simp
    show ?thesis
      unfolding 0 r f t using Cons.prems(3) utilisation_nonneg [of e c _ n]
      by (auto simp: observe_result observe_stored split: option.splits)
  next
    case (Suc j)
    let ?s' = "snd (observe s k0 c0 e0 n0)"
    from Cons.prems Suc have j: "j < length calls" "calls ! j = (k, c, e, n)" by auto
    have r: "fst (observe_calls s (call # calls)) ! i = fst (observe_calls ?s' calls) ! j"
      by (simp add: call Suc observe_calls_Cons del: observe_calls.simps(2))
    have f: "snd (observe_calls s (take (Suc i) (call # calls))) =
             snd (observe_calls ?s' (take (Suc j) calls))"
      by (simp add: call Suc observe_calls_Cons del: observe_calls.simps(2))
    have d: "dom s \<union> fst ` set (take i (call # calls)) = dom ?s' \<union> fst ` set (take j calls)"
      by (simp add: call Suc observe_dom)
    show ?thesis
      using Cons.IH [OF j Cons.prems(3), of ?s'] unfolding r f d by blast
  qed
qed

text \<open>
  Claim C3, as amended. In every sequence of observations made from an empty store, an
  observation of a process not observed before yields no utilisation; a later observation
  of the same process yields none when the elapsed time is not positive, and otherwise a
  number that is not negative; and the cumulative value observed is the one stored after
  the observation, whether a utilisation was yielded or not. The number of cores of the
  observation is positive, as \<^verbatim>\<open>os.cpu_count() or 1\<close> always is.
\<close>

theorem first_absent_later_nonnegative:
  assumes "i < length calls" and "calls ! i = (k, c, e, n)" and "0 < n"
  shows "(k \<notin> fst ` set (take i calls) \<longrightarrow> fst (observe_calls Map.empty calls) ! i = Inr None)
     \<and> (k \<in> fst ` set (take i calls) \<and> e \<le> 0 \<longrightarrow>
          fst (observe_calls Map.empty calls) ! i = Inr None)
     \<and> (k \<in> fst ` set (take i calls) \<and> 0 < e \<longrightarrow>
          (\<exists>v. fst (observe_calls Map.empty calls) ! i = Inr (Some v) \<and> 0 \<le> v))
     \<and> snd (observe_calls Map.empty (take (Suc i) calls)) k = Some c"
  using observe_calls_general [OF assms, of Map.empty] by simp

theorem first_absent_later_nonnegative_witness:
  "(2::nat) < length [(1::int, 10::real, 10::real, 1::nat), (1, 15, 10, 1), (1, 11, 0, 1)]
   \<and> 0 < (1::nat)
   \<and> fst (observe_calls Map.empty [(1, 10, 10, 1), (1, 15, 10, 1), (1, 11, 0, 1)]) ! 0 = Inr None
   \<and> (\<exists>v. fst (observe_calls Map.empty [(1, 10, 10, 1), (1, 15, 10, 1), (1, 11, 0, 1)]) ! 1
            = Inr (Some v) \<and> 0 \<le> v)
   \<and> fst (observe_calls Map.empty [(1, 10, 10, 1), (1, 15, 10, 1), (1, 11, 0, 1)]) ! 2 = Inr None
   \<and> snd (observe_calls Map.empty (take (Suc 2) [(1, 10, 10, 1), (1, 15, 10, 1), (1, 11, 0, 1)])) 1
        = Some 11"
proof -
  let ?calls = "[(1::int, 10::real, 10::real, 1::nat), (1, 15, 10, 1), (1, 11, 0, 1)]"
  have a: "fst (observe_calls Map.empty ?calls) ! 0 = Inr None"
    using first_absent_later_nonnegative [of 0 ?calls 1 10 10 1] by simp
  have b: "\<exists>v. fst (observe_calls Map.empty ?calls) ! 1 = Inr (Some v) \<and> 0 \<le> v"
    using first_absent_later_nonnegative [of 1 ?calls 1 15 10 1] by simp
  have c: "fst (observe_calls Map.empty ?calls) ! 2 = Inr None
           \<and> snd (observe_calls Map.empty (take (Suc 2) ?calls)) 1 = Some 11"
    using first_absent_later_nonnegative [of 2 ?calls 1 11 0 1] by simp
  from a b c show ?thesis by simp
qed

text \<open>
  The claim as stated fails: a second observation of process 1 with an elapsed time of 0
  yields no utilisation rather than a number.
\<close>

theorem later_observation_absent_counterexample:
  "fst (observe_calls Map.empty [(1, 10, 10, 1), (1, 15, 0, 1)]) ! 1 = Inr None"
  by (simp add: observe_def)

subsection \<open>An interval that is not positive\<close>

text \<open>
  Claim C4. When the elapsed time is not positive, the observation of a process yields no
  utilisation and no exception, whatever the stored and the observed cumulative values
  and the number of cores, and the new value is stored; every process that
  \<^verbatim>\<open>_collect_processes\<close> returns has no utilisation; and an exception of
  \<^verbatim>\<open>_collect_processes\<close> is one that it raises for every elapsed time and every store, so
  none is due to the elapsed time.
\<close>

theorem nonpositive_interval_absent:
  assumes "iv \<le> 0"
  shows "observe s k c iv n = (Inr None, s(k \<mapsto> c))
     \<and> (\<forall>rs. fst (collect_processes cfg w iv s) = Inr rs \<longrightarrow>
           (\<forall>smp\<in>set rs. sample.cpu_percent smp = None))
     \<and> (\<forall>x. fst (collect_processes cfg w iv s) = Inl x \<longrightarrow>
           fst (collect_processes cfg w iv' s') = Inl x)"
  using assms observe_nonpositive [of iv s k c n] collect_processes_absent [of cfg w iv s]
    collect_processes_error_independent [of cfg w iv s _ iv' s']
  by blast

lemma demo_processes_stalled:
  "fst (collect_processes demo_config demo_world 0 (Map.empty(2 \<mapsto> 4))) =
     Inr [\<lparr>pid = 1, name = ''a'', sample.cpu_percent = None, memory_mb = None\<rparr>,
          \<lparr>pid = 2, name = ''b'', sample.cpu_percent = None, memory_mb = None\<rparr>,
          \<lparr>pid = 3, name = ''c'', sample.cpu_percent = None, memory_mb = None\<rparr>]"
  by (simp add: demo_defs run_defs)

lemma bare_processes:
  "fst (collect_processes demo_config bare_world 0 Map.empty) =
     Inl (Raise OSError ''[Errno 2] No such file or directory'')"
  by (simp add: demo_defs run_defs)

theorem nonpositive_interval_absent_witness:
  "(0::real) \<le> 0
   \<and> observe (Map.empty(2 \<mapsto> 4)) 2 9 0 4 = (Inr None, Map.empty(2 \<mapsto> 9))
   \<and> map pid (projr (fst (collect_processes demo_config demo_world 0 (Map.empty(2 \<mapsto> 4)))))
         = [1, 2, 3]
   \<and> map sample.cpu_percent
         (projr (fst (collect_processes demo_config demo_world 0 (Map.empty(2 \<mapsto> 4)))))
         = [None, None, None]
   \<and> fst (collect_processes demo_config bare_world 0 Map.empty) =
         Inl (Raise OSError ''[Errno 2] No such file or directory'')
   \<and> fst (collect_processes demo_config bare_world 30 (Map.empty(2 \<mapsto> 4))) =
         Inl (Raise OSError ''[Errno 2] No such file or directory'')"
proof -
  have h: "(0::real) \<le> 0" by simp
  show ?thesis
    using nonpositive_interval_absent [OF h, of "Map.empty(2 \<mapsto> 4)" 2 9 4 demo_config demo_world]
      nonpositive_interval_absent [OF h, of Map.empty 2 9 4 demo_config bare_world 30 "Map.empty(2 \<mapsto> 4)"]
      demo_processes_stalled bare_processes
    by simp
qed

subsection \<open>The number of cores\<close>




subsection \<open>The snapshot and its interval\<close>

lemma collect_snapshot_timestamp:
  "PREVIOUS_COLLECTED_AT (snd (collect_snapshot cfg w st)) = Some (time_now w)"
  by (simp add: collect_snapshot_def Let_def split: sum.splits prod.splits)

lemma main_cycle_state: "snd (snd (main_cycle cfg w st)) = snd (collect_snapshot cfg w st)"
  by (simp add: main_cycle_def Let_def split: prod.splits)

lemma collect_snapshot_processes:
  assumes "fst (collect_snapshot cfg w st) = Inr snap"
  shows "fst (collect_processes cfg w
                (case PREVIOUS_COLLECTED_AT st of
                   Some previous \<Rightarrow> time_now w - previous
                 | None \<Rightarrow> POLL_INTERVAL cfg)
                (PREVIOUS_CPU_TIMES st)) = Inr (processes snap)
         \<and> PREVIOUS_CPU_TIMES (snd (collect_snapshot cfg w st)) =
             snd (collect_processes cfg w
                   (case PREVIOUS_COLLECTED_AT st of
                      Some previous \<Rightarrow> time_now w - previous
                    | None \<Rightarrow> POLL_INTERVAL cfg)
                   (PREVIOUS_CPU_TIMES st))"
  using assms
  by (auto simp: collect_snapshot_def Let_def split: sum.splits prod.splits)

lemma collect_snapshot_identity:
  assumes "fst (collect_snapshot cfg w st) = Inr snap"
  shows "agent_id snap = AGENT_ID cfg \<and> hostname snap = gethostname w
         \<and> collected_at snap = strftime_gmtime w (time_now w)"
  using assms
  by (auto simp: collect_snapshot_def Let_def split: sum.splits prod.splits)

text \<open>
  Claim C5. In every cycle the timestamp of the previous collection becomes the time of
  this one, whether the collection raises or returns and whether the delivery succeeds;
  and the interval from which \<^verbatim>\<open>_collect_processes\<close> computes the utilisations of the
  snapshot, and updates the stored CPU times, is the time of this collection less the
  timestamp of the previous one, or the configured interval when there is no previous one.
\<close>

theorem interval_is_wall_clock_gap:
  "PREVIOUS_COLLECTED_AT (snd (collect_snapshot cfg w st)) = Some (time_now w)
   \<and> PREVIOUS_COLLECTED_AT (snd (snd (main_cycle cfg w st))) = Some (time_now w)
   \<and> (fst (collect_snapshot cfg w st) = Inr snap \<longrightarrow>
        fst (collect_processes cfg w
               (case PREVIOUS_COLLECTED_AT st of
                  Some previous \<Rightarrow> time_now w - previous
                | None \<Rightarrow> POLL_INTERVAL cfg)
               (PREVIOUS_CPU_TIMES st)) = Inr (processes snap)
        \<and> PREVIOUS_CPU_TIMES (snd (collect_snapshot cfg w st)) =
            snd (collect_processes cfg w
                  (case PREVIOUS_COLLECTED_AT st of
                     Some previous \<Rightarrow> time_now w - previous
                   | None \<Rightarrow> POLL_INTERVAL cfg)
                  (PREVIOUS_CPU_TIMES st)))"
  using collect_snapshot_processes [of cfg w st snap]
  by (simp add: collect_snapshot_timestamp main_cycle_state)

lemma later_snapshot:
  "fst (collect_snapshot demo_config demo_world later_state) =
     Inr \<lparr>agent_id = ''host-a'', hostname = ''host-a'', ip = Some ''10.0.0.5'',
          collected_at = ''1970-01-01T00:01:41Z'',
          metrics = \<lparr>metrics.cpu_percent = Some 7,
                     memory = \<lparr>memory.total_bytes = Some 4194304, used_bytes = Some 3145728\<rparr>,
                     disks = []\<rparr>,
          processes = [\<lparr>pid = 1, name = ''a'', sample.cpu_percent = Some 10, memory_mb = None\<rparr>,
                       \<lparr>pid = 2, name = ''b'', sample.cpu_percent = None, memory_mb = None\<rparr>,
                       \<lparr>pid = 3, name = ''c'', sample.cpu_percent = None, memory_mb = None\<rparr>],
          events = []\<rparr>"
  by (simp add: demo_defs run_defs snapshot_defs)

lemma first_snapshot:
  "fst (collect_snapshot demo_config demo_world initial_state) =
     Inr \<lparr>agent_id = ''host-a'', hostname = ''host-a'', ip = Some ''10.0.0.5'',
          collected_at = ''1970-01-01T00:01:41Z'',
          metrics = \<lparr>metrics.cpu_percent = Some 7,
                     memory = \<lparr>memory.total_bytes = Some 4194304, used_bytes = Some 3145728\<rparr>,
                     disks = []\<rparr>,
          processes = [\<lparr>pid = 1, name = ''a'', sample.cpu_percent = None, memory_mb = None\<rparr>,
                       \<lparr>pid = 2, name = ''b'', sample.cpu_percent = None, memory_mb = None\<rparr>,
                       \<lparr>pid = 3, name = ''c'', sample.cpu_percent = None, memory_mb = None\<rparr>],
          events = []\<rparr>"
  by (simp add: demo_defs run_defs snapshot_defs)

theorem interval_is_wall_clock_gap_witness:
  "PREVIOUS_COLLECTED_AT later_state = Some 91 \<and> time_now demo_world = 101
   \<and> fst (collect_processes demo_config demo_world (101 - 91) (PREVIOUS_CPU_TIMES later_state)) =
        Inr (processes (projr (fst (collect_snapshot demo_config demo_world later_state))))
   \<and> map sample.cpu_percent
        (processes (projr (fst (collect_snapshot demo_config demo_world later_state))))
        = [Some 10, None, None]
   \<and> PREVIOUS_COLLECTED_AT (snd (collect_snapshot demo_config demo_world later_state)) = Some 101
   \<and> PREVIOUS_COLLECTED_AT initial_state = None \<and> POLL_INTERVAL demo_config = 30
   \<and> fst (collect_processes demo_config demo_world 30 (PREVIOUS_CPU_TIMES initial_state)) =
        Inr (processes (projr (fst (collect_snapshot demo_config demo_world initial_state))))"
proof -
  have a: "PREVIOUS_COLLECTED_AT later_state = Some 91" "time_now demo_world = 101"
    "PREVIOUS_COLLECTED_AT initial_state = None" "POLL_INTERVAL demo_config = 30"
    by (simp_all add: demo_defs)
  note t1 = interval_is_wall_clock_gap [of demo_config demo_world later_state
              "projr (fst (collect_snapshot demo_config demo_world later_state))"]
  note t2 = interval_is_wall_clock_gap [of demo_config demo_world initial_state
              "projr (fst (collect_snapshot demo_config demo_world initial_state))"]
  from t1 have b:
    "fst (collect_processes demo_config demo_world (101 - 91) (PREVIOUS_CPU_TIMES later_state)) =
       Inr (processes (projr (fst (collect_snapshot demo_config demo_world later_state))))"
    "PREVIOUS_COLLECTED_AT (snd (collect_snapshot demo_config demo_world later_state)) = Some 101"
    by (simp_all add: later_snapshot a)
  from t2 have c:
    "fst (collect_processes demo_config demo_world 30 (PREVIOUS_CPU_TIMES initial_state)) =
       Inr (processes (projr (fst (collect_snapshot demo_config demo_world initial_state))))"
    by (simp add: first_snapshot a)
  show ?thesis
    using a b c by (simp add: later_snapshot)
qed

subsection \<open>The order of the processes\<close>

















subsection \<open>The memory reading\<close>

lemma collect_memory_cases:
  assumes "collect_memory w = Inr m"
  shows "m = \<lparr>memory.total_bytes = None, used_bytes = None\<rparr>
         \<or> (\<exists>out total_kb free_kb.
              run_command w [''wmic'', ''OS'', ''get'',
                             ''FreePhysicalMemory,TotalVisibleMemorySize'', ''/value''] = Inr out
              \<and> memory_lines w (splitlines out) (None, None) = (Some total_kb, Some free_kb)
              \<and> m = \<lparr>memory.total_bytes = Some (total_kb * 1024),
                      used_bytes = Some (max (total_kb * 1024 - free_kb * 1024) 0)\<rparr>)"
  using assms
  by (auto simp: collect_memory_def Let_def split: sum.splits if_splits prod.splits option.splits)

text \<open>
  Claim C10. In a memory reading that \<^verbatim>\<open>_collect_memory\<close> returns, the total and the
  used bytes are both absent or both present; when present, the used bytes are the
  maximum of 0 and the total bytes less the free bytes, 1024 times the free kilobytes
  that the loop over the lines read, so they are not negative.
\<close>

theorem memory_reading_paired:
  assumes "collect_memory w = Inr m"
  shows "(memory.total_bytes m = None \<longleftrightarrow> used_bytes m = None)
     \<and> (\<forall>t u. memory.total_bytes m = Some t \<and> used_bytes m = Some u \<longrightarrow>
           0 \<le> u
           \<and> (\<exists>out free_kb.
                 run_command w [''wmic'', ''OS'', ''get'',
                                ''FreePhysicalMemory,TotalVisibleMemorySize'', ''/value''] = Inr out
                 \<and> snd (memory_lines w (splitlines out) (None, None)) = Some free_kb
                 \<and> u = max (t - free_kb * 1024) 0))"
  using collect_memory_cases [OF assms] by auto

lemma overfree_memory:
  "collect_memory overfree_world = Inr \<lparr>memory.total_bytes = Some 1048576, used_bytes = Some 0\<rparr>"
  by (simp add: demo_defs run_defs)

theorem memory_reading_paired_witness:
  "collect_memory overfree_world = Inr \<lparr>memory.total_bytes = Some 1048576, used_bytes = Some 0\<rparr>
   \<and> (\<exists>out free_kb.
         run_command overfree_world [''wmic'', ''OS'', ''get'',
                                     ''FreePhysicalMemory,TotalVisibleMemorySize'', ''/value''] = Inr out
         \<and> snd (memory_lines overfree_world (splitlines out) (None, None)) = Some free_kb
         \<and> (0::real) = max (1048576 - free_kb * 1024) 0)"
  using memory_reading_paired [OF overfree_memory] overfree_memory by simp

subsection \<open>Delivery\<close>

lemma main_cycle_printed:
  "fst (main_cycle cfg w st) =
     (case fst (collect_snapshot cfg w st) of
        Inl exc \<Rightarrow> Stderr (''Error collecting or sending metrics: '' @ exn_str exc)
      | Inr snap \<Rightarrow>
         (case post_snapshot cfg w snap of
            Inl exc \<Rightarrow> Stderr (''Error collecting or sending metrics: '' @ exn_str exc)
          | Inr u \<Rightarrow>
              Stdout (''['' @ strftime_localtime w @ ''] '' @ ''Sent metrics for '' @ agent_id snap)))"
  by (cases "collect_snapshot cfg w st") (simp add: main_cycle_def Let_def)

text \<open>
  Claim C7. \<^verbatim>\<open>_post_snapshot\<close> turns a failure of the serialisation, a failure of the
  HTTP exchange and a status of 400 or more into an exception value that carries its
  cause, and succeeds exactly when the body is serialised and the status is below 400;
  the round of \<^verbatim>\<open>main\<close> that sent the snapshot catches the exception and prints its
  cause on the standard error, so none escapes the loop.
\<close>

theorem delivery_failures_reported:
  "(json_dumps w payload = Inl e \<longrightarrow> post_snapshot cfg w payload = Inl e)
   \<and> (json_dumps w payload = Inr body \<and> urlopen w (ingest_request cfg body) = Inl e \<longrightarrow>
         post_snapshot cfg w payload = Inl e)
   \<and> (json_dumps w payload = Inr body \<and> urlopen w (ingest_request cfg body) = Inr status
        \<and> 400 \<le> status \<longrightarrow>
         post_snapshot cfg w payload =
           Inl (Raise RuntimeError (''Ingest failed with status '' @ str_int status)))
   \<and> (fst (collect_snapshot cfg w st) = Inr payload \<and> post_snapshot cfg w payload = Inl e \<longrightarrow>
         fst (main_cycle cfg w st) =
           Stderr (''Error collecting or sending metrics: '' @ exn_str e))
   \<and> (fst (collect_snapshot cfg w st) = Inr payload \<and> post_snapshot cfg w payload = Inr () \<longrightarrow>
         fst (main_cycle cfg w st) =
           Stdout (''['' @ strftime_localtime w @ ''] Sent metrics for '' @ agent_id payload))
   \<and> (post_snapshot cfg w payload = Inr () \<longleftrightarrow>
         (\<exists>body status. json_dumps w payload = Inr body
            \<and> urlopen w (ingest_request cfg body) = Inr status \<and> status < 400))"
proof (intro conjI impI)
  assume "json_dumps w payload = Inl e"
  then show "post_snapshot cfg w payload = Inl e"
    by (simp add: post_snapshot_def)
next
  assume "json_dumps w payload = Inr body \<and> urlopen w (ingest_request cfg body) = Inl e"
  then show "post_snapshot cfg w payload = Inl e"
    by (simp add: post_snapshot_def)
next
  assume "json_dumps w payload = Inr body \<and> urlopen w (ingest_request cfg body) = Inr status
          \<and> 400 \<le> status"
  then show "post_snapshot cfg w payload =
               Inl (Raise RuntimeError (''Ingest failed with status '' @ str_int status))"
    by (simp add: post_snapshot_def)
next
  assume "fst (collect_snapshot cfg w st) = Inr payload \<and> post_snapshot cfg w payload = Inl e"
  then show "fst (main_cycle cfg w st) =
               Stderr (''Error collecting or sending metrics: '' @ exn_str e)"
    by (simp add: main_cycle_printed)
next
  assume "fst (collect_snapshot cfg w st) = Inr payload \<and> post_snapshot cfg w payload = Inr ()"
  then show "fst (main_cycle cfg w st) =
               Stdout (''['' @ strftime_localtime w @ ''] Sent metrics for '' @ agent_id payload)"
    by (simp add: main_cycle_printed)
next
  show "post_snapshot cfg w payload = Inr () \<longleftrightarrow>
          (\<exists>body status. json_dumps w payload = Inr body
             \<and> urlopen w (ingest_request cfg body) = Inr status \<and> status < 400)"
    by (auto simp: post_snapshot_def split: sum.splits if_splits)
qed

lemma str_int_500: "str_int 500 = ''500''"
  by (simp add: str_int_def digit_char_def)

lemma unreachable_snapshot:
  "fst (collect_snapshot demo_config unreachable_world initial_state) =
     fst (collect_snapshot demo_config demo_world initial_state)"
  by (simp add: demo_defs run_defs snapshot_defs)

lemma unserialisable_snapshot:
  "fst (collect_snapshot demo_config unserialisable_world initial_state) =
     fst (collect_snapshot demo_config demo_world initial_state)"
  by (simp add: demo_defs run_defs snapshot_defs)

lemma failing_endpoint_snapshot:
  "fst (collect_snapshot demo_config failing_endpoint_world initial_state) =
     fst (collect_snapshot demo_config demo_world initial_state)"
  by (simp add: demo_defs run_defs snapshot_defs)

theorem delivery_failures_reported_witness:
  "json_dumps failing_endpoint_world
       (projr (fst (collect_snapshot demo_config demo_world initial_state))) = Inr ''{}''
   \<and> urlopen failing_endpoint_world (ingest_request demo_config ''{}'') = Inr 500
   \<and> (400::int) \<le> 500
   \<and> post_snapshot demo_config failing_endpoint_world
        (projr (fst (collect_snapshot demo_config demo_world initial_state))) =
        Inl (Raise RuntimeError ''Ingest failed with status 500'')
   \<and> fst (main_cycle demo_config failing_endpoint_world initial_state) =
        Stderr ''Error collecting or sending metrics: Ingest failed with status 500''
   \<and> post_snapshot demo_config unreachable_world
        (projr (fst (collect_snapshot demo_config demo_world initial_state))) =
        Inl (Raise OSError ''<urlopen error [Errno 111] Connection refused>'')
   \<and> fst (main_cycle demo_config unreachable_world initial_state) =
        Stderr ''Error collecting or sending metrics: <urlopen error [Errno 111] Connection refused>''
   \<and> post_snapshot demo_config unserialisable_world
        (projr (fst (collect_snapshot demo_config demo_world initial_state))) =
        Inl (Raise TypeError ''Object of type bytes is not JSON serializable'')
   \<and> fst (main_cycle demo_config unserialisable_world initial_state) =
        Stderr ''Error collecting or sending metrics: Object of type bytes is not JSON serializable''
   \<and> post_snapshot demo_config demo_world
        (projr (fst (collect_snapshot demo_config demo_world initial_state))) = Inr ()
   \<and> fst (main_cycle demo_config demo_world initial_state) =
        Stdout ''[1970-01-01 00:01:43] Sent metrics for host-a''"
proof -
  let ?p = "projr (fst (collect_snapshot demo_config demo_world initial_state))"
  have s: "fst (collect_snapshot demo_config demo_world initial_state) = Inr ?p"
    by (simp add: first_snapshot)
  have a: "agent_id ?p = ''host-a''"
    by (simp add: first_snapshot)
  have d1: "json_dumps failing_endpoint_world ?p = Inr ''{}''"
    and u1: "urlopen failing_endpoint_world (ingest_request demo_config ''{}'') = Inr 500"
    and d2: "json_dumps unreachable_world ?p = Inr ''{}''"
    and u2: "urlopen unreachable_world (ingest_request demo_config ''{}'') =
               Inl (Raise OSError ''<urlopen error [Errno 111] Connection refused>'')"
    and d3: "json_dumps unserialisable_world ?p =
               Inl (Raise TypeError ''Object of type bytes is not JSON serializable'')"
    and d4: "json_dumps demo_world ?p = Inr ''{}''"
    and u4: "urlopen demo_world (ingest_request demo_config ''{}'') = Inr 200"
    and l4: "strftime_localtime demo_world = ''1970-01-01 00:01:43''"
    by (simp_all add: demo_defs)
  note t1 = delivery_failures_reported [of failing_endpoint_world ?p
              "Raise RuntimeError ''Ingest failed with status 500''" demo_config "''{}''" 500
              initial_state]
  note t2 = delivery_failures_reported [of unreachable_world ?p
              "Raise OSError ''<urlopen error [Errno 111] Connection refused>''" demo_config
              "''{}''" 0 initial_state]
  note t3 = delivery_failures_reported [of unserialisable_world ?p
              "Raise TypeError ''Object of type bytes is not JSON serializable''" demo_config
              "''{}''" 0 initial_state]
  note t4 = delivery_failures_reported [of demo_world ?p "Raise OtherException []" demo_config
              "''{}''" 200 initial_state]
  from t1 d1 u1 have p1: "post_snapshot demo_config failing_endpoint_world ?p =
                            Inl (Raise RuntimeError ''Ingest failed with status 500'')"
    by (simp add: str_int_500)
  with t1 s have m1: "fst (main_cycle demo_config failing_endpoint_world initial_state) =
                        Stderr ''Error collecting or sending metrics: Ingest failed with status 500''"
    by (simp add: failing_endpoint_snapshot)
  from t2 d2 u2 have p2: "post_snapshot demo_config unreachable_world ?p =
                            Inl (Raise OSError ''<urlopen error [Errno 111] Connection refused>'')"
    by blast
  with t2 s have m2: "fst (main_cycle demo_config unreachable_world initial_state) =
       Stderr ''Error collecting or sending metrics: <urlopen error [Errno 111] Connection refused>''"
    by (simp add: unreachable_snapshot)
  from t3 d3 have p3: "post_snapshot demo_config unserialisable_world ?p =
                         Inl (Raise TypeError ''Object of type bytes is not JSON serializable'')"
    by blast
  with t3 s have m3: "fst (main_cycle demo_config unserialisable_world initial_state) =
       Stderr ''Error collecting or sending metrics: Object of type bytes is not JSON serializable''"
    by (simp add: unserialisable_snapshot)
  from t4 d4 u4 have p4: "post_snapshot demo_config demo_world ?p = Inr ()"
    by auto
  with t4 s a l4 have m4: "fst (main_cycle demo_config demo_world initial_state) =
                        Stdout ''[1970-01-01 00:01:43] Sent metrics for host-a''"
    by simp
  from d1 u1 p1 m1 p2 m2 p3 m3 p4 m4 show ?thesis by simp
qed

subsection \<open>Failures of the sources\<close>

text \<open>
  Claim C1 says that the assembly of a snapshot never raises, each failed source being left
  absent or empty. On a host without the program \<^verbatim>\<open>wmic\<close>, \<^verbatim>\<open>subprocess.run\<close> raises an
  \<^verbatim>\<open>OSError\<close>, which the handlers for \<^verbatim>\<open>RuntimeError\<close> do not catch:
  \<^verbatim>\<open>_collect_snapshot\<close> raises it, and the round of \<^verbatim>\<open>main\<close> prints an error and sends
  no snapshot for the sources that could be read.
\<close>

theorem missing_program_aborts_snapshot:
  "fst (collect_snapshot demo_config bare_world initial_state) =
     Inl (Raise OSError ''[Errno 2] No such file or directory'')
   \<and> fst (main_cycle demo_config bare_world initial_state) =
     Stderr ''Error collecting or sending metrics: [Errno 2] No such file or directory''"
  by (simp add: demo_defs run_defs snapshot_defs)

text \<open>
  Where every command can be launched and prints objects whose integers \<^verbatim>\<open>float\<close>
  accepts, the snapshot is assembled and each source whose command exits with a status
  other than 0 is left absent or empty.
\<close>

lemma run_command_launched:
  assumes "subprocess_run w command = Inr p"
  shows "(returncode p = 0 \<longrightarrow> run_command w command = Inr (strip (stdout p)))
       \<and> (returncode p \<noteq> 0 \<longrightarrow>
            (\<exists>e. run_command w command = Inl e \<and> caught [RuntimeError] e))"
  using assms by (simp add: run_command_def caught_def)

lemma collect_cpu_percent_launched:
  assumes "subprocess_run w [''wmic'', ''cpu'', ''get'', ''LoadPercentage'', ''/value''] = Inr p"
  shows "\<exists>r. collect_cpu_percent w = Inr r \<and> (returncode p \<noteq> 0 \<longrightarrow> r = None)"
  using run_command_launched [OF assms]
  by (cases "returncode p = 0") (auto simp: collect_cpu_percent_def)

lemma collect_memory_launched:
  assumes "subprocess_run w [''wmic'', ''OS'', ''get'',
                             ''FreePhysicalMemory,TotalVisibleMemorySize'', ''/value''] = Inr p"
  shows "\<exists>r. collect_memory w = Inr r
          \<and> (returncode p \<noteq> 0 \<longrightarrow> r = \<lparr>memory.total_bytes = None, used_bytes = None\<rparr>)"
  using run_command_launched [OF assms]
  by (cases "returncode p = 0")
     (auto simp: collect_memory_def Let_def split: prod.splits option.splits)

lemma disk_entry_plain:
  assumes "plain_object d"
  shows "\<exists>r. disk_entry w d = Inr r"
proof -
  obtain a where a: "py_get d ''DeviceID'' = Inr a" using py_get_plain [OF assms] by blast
  obtain b where b: "py_get d ''Size'' = Inr b" "float_safe b"
    using py_get_plain [OF assms] by blast
  obtain c where c: "py_get d ''FreeSpace'' = Inr c" "float_safe c"
    using py_get_plain [OF assms] by blast
  show ?thesis
    by (auto simp: disk_entry_def a b c split: sum.splits
             dest: py_float_safe [OF b(2)] py_float_safe [OF c(2)])
qed

lemma disks_loop_returns:
  "\<forall>d\<in>set ds. plain_object d \<Longrightarrow> \<exists>rs. disks_loop w ds acc = Inr rs"
proof (induction ds arbitrary: acc)
  case Nil
  then show ?case by simp
next
  case (Cons d ds)
  then obtain r where "disk_entry w d = Inr r"
    using disk_entry_plain [of d w] by auto
  with Cons show ?case
    by (cases r) auto
qed

lemma event_entry_dict: "is_dict ev \<Longrightarrow> \<exists>r. event_entry w ev = Inr r"
proof -
  assume d: "is_dict ev"
  obtain a where a: "py_get ev ''TimeCreated'' = Inr a" using py_get_dict [OF d] by blast
  obtain b where b: "py_get ev ''Id'' = Inr b" using py_get_dict [OF d] by blast
  obtain c where c: "py_get ev ''LevelDisplayName'' = Inr c" using py_get_dict [OF d] by blast
  obtain e where e: "py_get ev ''ProviderName'' = Inr e" using py_get_dict [OF d] by blast
  obtain f where f: "py_get ev ''Message'' = Inr f" using py_get_dict [OF d] by blast
  show ?thesis
    by (simp add: event_entry_def a b c e f)
qed

lemma events_loop_returns:
  "\<forall>ev\<in>set evs. is_dict ev \<Longrightarrow> \<exists>rs. events_loop w evs acc = Inr rs"
proof (induction evs arbitrary: acc)
  case Nil
  then show ?case by simp
next
  case (Cons ev evs)
  then obtain r where "event_entry w ev = Inr r"
    using event_entry_dict [of ev w] by auto
  with Cons show ?case by auto
qed

lemma collect_disks_launched:
  assumes "subprocess_run w [''powershell'', ''-NoProfile'', ''-Command'', disks_script] = Inr p"
    and "\<forall>text xs. json_loads w text = Some (JList xs) \<longrightarrow> (\<forall>x\<in>set xs. plain_object x)"
    and "\<forall>text kvs. json_loads w text = Some (JDict kvs) \<longrightarrow> plain_object (JDict kvs)"
  shows "\<exists>r. collect_disks w = Inr r \<and> (returncode p \<noteq> 0 \<longrightarrow> r = [])"
proof (cases "returncode p = 0")
  case False
  with run_command_launched [OF assms(1)] show ?thesis
    by (auto simp: collect_disks_def run_powershell_def)
next
  case True
  with run_command_launched [OF assms(1)]
  have r: "run_powershell w disks_script = Inr (strip (stdout p))"
    by (simp add: run_powershell_def)
  show ?thesis
  proof (cases "json_loads w (strip (stdout p))")
    case None
    with r True show ?thesis by (simp add: collect_disks_def)
  next
    case (Some v)
    show ?thesis
    proof (cases v)
      case (JList xs)
      with Some assms(2) have "\<forall>x\<in>set xs. plain_object x" by blast
      from disks_loop_returns [OF this, of w "[]"] r True Some JList show ?thesis
        by (auto simp: collect_disks_def)
    next
      case (JDict kvs)
      with Some assms(3) have "\<forall>x\<in>set [JDict kvs]. plain_object x" by simp
      from disks_loop_returns [OF this, of w "[]"] r True Some JDict show ?thesis
        by (auto simp: collect_disks_def simp del: disks_loop.simps)
    qed (use r True Some in \<open>simp_all add: collect_disks_def\<close>)
  qed
qed

lemma collect_events_launched:
  assumes "subprocess_run w [''powershell'', ''-NoProfile'', ''-Command'', events_script cfg] = Inr p"
    and "\<forall>text xs. json_loads w text = Some (JList xs) \<longrightarrow> (\<forall>x\<in>set xs. plain_object x)"
    and "\<forall>text kvs. json_loads w text = Some (JDict kvs) \<longrightarrow> plain_object (JDict kvs)"
  shows "\<exists>r. collect_events cfg w = Inr r \<and> (returncode p \<noteq> 0 \<longrightarrow> r = [])"
proof (cases "returncode p = 0")
  case False
  with run_command_launched [OF assms(1)] show ?thesis
    by (auto simp: collect_events_def run_powershell_def)
next
  case True
  with run_command_launched [OF assms(1)]
  have r: "run_powershell w (events_script cfg) = Inr (strip (stdout p))"
    by (simp add: run_powershell_def)
  show ?thesis
  proof (cases "json_loads w (strip (stdout p))")
    case None
    with r True show ?thesis by (simp add: collect_events_def)
  next
    case (Some v)
    show ?thesis
    proof (cases v)
      case (JList xs)
      with Some assms(2) have "\<forall>x\<in>set xs. plain_object x" by blast
      then have "\<forall>x\<in>set xs. is_dict x" by (blast intro: plain_object_dict)
      from events_loop_returns [OF this, of w "[]"] r True Some JList show ?thesis
        by (auto simp: collect_events_def)
    next
      case (JDict kvs)
      with Some assms(3) have "\<forall>x\<in>set [JDict kvs]. plain_object x" by simp
      then have "\<forall>x\<in>set [JDict kvs]. is_dict x" by simp
      from events_loop_returns [OF this, of w "[]"] r True Some JDict show ?thesis
        by (auto simp: collect_events_def simp del: events_loop.simps)
    qed (use r True Some in \<open>simp_all add: collect_events_def\<close>)
  qed
qed

lemma collect_processes_launched:
  assumes "subprocess_run w [''powershell'', ''-NoProfile'', ''-Command'', processes_script cfg] = Inr p"
    and "\<forall>text xs. json_loads w text = Some (JList xs) \<longrightarrow> (\<forall>x\<in>set xs. plain_object x)"
    and "\<forall>text kvs. json_loads w text = Some (JDict kvs) \<longrightarrow> plain_object (JDict kvs)"
  shows "\<exists>r. fst (collect_processes cfg w iv s) = Inr r \<and> (returncode p \<noteq> 0 \<longrightarrow> r = [])"
proof (cases "returncode p = 0")
  case False
  with run_command_launched [OF assms(1)] show ?thesis
    by (auto simp: collect_processes_def run_powershell_def)
next
  case True
  with run_command_launched [OF assms(1)]
  have r: "run_powershell w (processes_script cfg) = Inr (strip (stdout p))"
    by (simp add: run_powershell_def)
  show ?thesis
  proof (cases "json_loads w (strip (stdout p))")
    case None
    with r True show ?thesis by (simp add: collect_processes_def)
  next
    case (Some v)
    show ?thesis
    proof (cases v)
      case (JList xs)
      with Some assms(2) have "\<forall>x\<in>set xs. plain_object x" by blast
      from processes_loop_returns [OF this cpu_count_of_pos [of w], where w = w and iv = iv and s = s
             and acc = "[]"] r True Some JList
      show ?thesis
        by (auto simp: collect_processes_def)
    next
      case (JDict kvs)
      with Some assms(3) have "\<forall>x\<in>set [JDict kvs]. plain_object x" by simp
      from processes_loop_returns [OF this cpu_count_of_pos [of w], where w = w and iv = iv and s = s
             and acc = "[]"] r True Some JDict
      show ?thesis
        by (auto simp: collect_processes_def simp del: processes_loop.simps)
    qed (use r True Some in \<open>simp_all add: collect_processes_def\<close>)
  qed
qed

lemma resolve_ip_returns:
  assumes "\<forall>e. gethostbyname w (gethostname w) = Inl e \<longrightarrow> caught [OSError] e"
  shows "\<exists>r. resolve_ip w = Inr r"
  using assms by (auto simp: resolve_ip_def split: sum.splits)

lemma collect_snapshot_degrades:
  assumes launch: "\<forall>command. \<exists>p. subprocess_run w command = Inr p"
    and objects: "\<forall>text xs. json_loads w text = Some (JList xs) \<longrightarrow> (\<forall>x\<in>set xs. plain_object x)"
    and single: "\<forall>text kvs. json_loads w text = Some (JDict kvs) \<longrightarrow> plain_object (JDict kvs)"
    and resolver: "\<forall>e. gethostbyname w (gethostname w) = Inl e \<longrightarrow> caught [OSError] e"
  shows "\<exists>snap. fst (collect_snapshot cfg w st) = Inr snap
           \<and> agent_id snap = AGENT_ID cfg \<and> hostname snap = gethostname w
           \<and> collected_at snap = strftime_gmtime w (time_now w)
           \<and> ((\<forall>command p. subprocess_run w command = Inr p \<longrightarrow> returncode p \<noteq> 0) \<longrightarrow>
                metrics snap = \<lparr>metrics.cpu_percent = None,
                                memory = \<lparr>memory.total_bytes = None, used_bytes = None\<rparr>,
                                disks = []\<rparr>
                \<and> processes snap = [] \<and> events snap = [])"
proof -
  let ?iv = "case PREVIOUS_COLLECTED_AT st of
               Some previous \<Rightarrow> time_now w - previous
             | None \<Rightarrow> POLL_INTERVAL cfg"
  let ?fail = "\<forall>command p. subprocess_run w command = Inr p \<longrightarrow> returncode p \<noteq> 0"
  obtain p1 where p1: "subprocess_run w [''wmic'', ''cpu'', ''get'', ''LoadPercentage'', ''/value''] = Inr p1"
    using launch by blast
  obtain p2 where p2: "subprocess_run w [''wmic'', ''OS'', ''get'',
                         ''FreePhysicalMemory,TotalVisibleMemorySize'', ''/value''] = Inr p2"
    using launch by blast
  obtain p3 where p3: "subprocess_run w [''powershell'', ''-NoProfile'', ''-Command'', disks_script] = Inr p3"
    using launch by blast
  obtain p4 where p4: "subprocess_run w [''powershell'', ''-NoProfile'', ''-Command'', processes_script cfg] = Inr p4"
    using launch by blast
  obtain p5 where p5: "subprocess_run w [''powershell'', ''-NoProfile'', ''-Command'', events_script cfg] = Inr p5"
    using launch by blast
  obtain load where load: "collect_cpu_percent w = Inr load" "returncode p1 \<noteq> 0 \<longrightarrow> load = None"
    using collect_cpu_percent_launched [OF p1] by blast
  obtain mem where mem: "collect_memory w = Inr mem"
      "returncode p2 \<noteq> 0 \<longrightarrow> mem = \<lparr>memory.total_bytes = None, used_bytes = None\<rparr>"
    using collect_memory_launched [OF p2] by blast
  obtain ds where ds: "collect_disks w = Inr ds" "returncode p3 \<noteq> 0 \<longrightarrow> ds = []"
    using collect_disks_launched [OF p3 objects single] by blast
  obtain ps where ps: "fst (collect_processes cfg w ?iv (PREVIOUS_CPU_TIMES st)) = Inr ps"
      "returncode p4 \<noteq> 0 \<longrightarrow> ps = []"
    using collect_processes_launched [OF p4 objects single] by blast
  obtain evs where evs: "collect_events cfg w = Inr evs" "returncode p5 \<noteq> 0 \<longrightarrow> evs = []"
    using collect_events_launched [OF p5 objects single] by blast
  obtain addr where addr: "resolve_ip w = Inr addr"
    using resolve_ip_returns [OF resolver] by blast
  obtain store where store: "collect_processes cfg w ?iv (PREVIOUS_CPU_TIMES st) = (Inr ps, store)"
    using ps(1) by (cases "collect_processes cfg w ?iv (PREVIOUS_CPU_TIMES st)") auto
  have snap: "fst (collect_snapshot cfg w st) =
                Inr \<lparr>agent_id = AGENT_ID cfg, hostname = gethostname w, ip = addr,
                     collected_at = strftime_gmtime w (time_now w),
                     metrics = \<lparr>metrics.cpu_percent = load, memory = mem, disks = ds\<rparr>,
                     processes = ps, events = evs\<rparr>"
    by (simp add: collect_snapshot_def Let_def load(1) mem(1) ds(1) store evs(1) addr)
  have "?fail \<longrightarrow> load = None \<and> mem = \<lparr>memory.total_bytes = None, used_bytes = None\<rparr>
          \<and> ds = [] \<and> ps = [] \<and> evs = []"
    using p1 p2 p3 p4 p5 load(2) mem(2) ds(2) ps(2) evs(2) by blast
  with snap show ?thesis by auto
qed

end
